theory Spec2Isabelle
  imports Complex_Main "HOL-Library.Word"
begin

section \<open>JavaScript numbers\<close>

text \<open>
  Every quantity of the four calculators is a JavaScript \<open>number\<close>: an IEEE-754 binary64
  value. A number is \<open>NaN\<close>, one of the two infinities, negative zero, or a finite value
  \<open>Fin r\<close> (positive zero is \<open>Fin 0\<close>). The finite values that arithmetic produces are the
  binary64 ones: every operation computes the exact real result and rounds it with \<open>rnd\<close>
  (round to nearest, ties to even, overflow to an infinity, underflow through the
  subnormal range to a signed zero).
\<close>

datatype number = NaN | PInf | NInf | NZero | Fin real

text \<open>Rounding a real to the nearest integer, ties to the even one.\<close>

definition rhe :: "real \<Rightarrow> int" where
  "rhe y = (let f = \<lfloor>y\<rfloor>; d = y - of_int f in
     if d < 1 / 2 then f else if 1 / 2 < d then f + 1 else if even f then f else f + 1)"

text \<open>
  The binary exponent of a real, not below the exponent \<open>- 1022\<close> of the smallest normal
  number, and the spacing of the binary64 values in that binade (53 significant bits).
\<close>

definition expo :: "real \<Rightarrow> int" where
  "expo x = max \<lfloor>log 2 \<bar>x\<bar>\<rfloor> (- 1022)"

definition quantum :: "real \<Rightarrow> real" where
  "quantum x = 2 powi (expo x - 52)"

definition overflow_threshold :: real where
  "overflow_threshold = 2 powi 1024"

definition rnd :: "real \<Rightarrow> number" where
  "rnd x = (let n = rhe (\<bar>x\<bar> / quantum x); y = of_int n * quantum x in
     if overflow_threshold \<le> y then (if x < 0 then NInf else PInf)
     else if n = 0 then (if x < 0 then NZero else Fin 0)
     else Fin (if x < 0 then - y else y))"

fun sign_bit :: "number \<Rightarrow> bool" where
  "sign_bit NInf = True"
| "sign_bit NZero = True"
| "sign_bit (Fin r) = (r < 0)"
| "sign_bit _ = False"

fun is_zero :: "number \<Rightarrow> bool" where
  "is_zero NZero = True"
| "is_zero (Fin r) = (r = 0)"
| "is_zero _ = False"

fun is_inf :: "number \<Rightarrow> bool" where
  "is_inf PInf = True"
| "is_inf NInf = True"
| "is_inf _ = False"

fun is_finite :: "number \<Rightarrow> bool" where
  "is_finite NZero = True"
| "is_finite (Fin r) = True"
| "is_finite _ = False"

fun val :: "number \<Rightarrow> real" where
  "val (Fin r) = r"
| "val _ = 0"

definition inf_of :: "bool \<Rightarrow> number" where
  "inf_of negative = (if negative then NInf else PInf)"

definition zero_of :: "bool \<Rightarrow> number" where
  "zero_of negative = (if negative then NZero else Fin 0)"

subsection \<open>The arithmetic operators\<close>

fun js_neg :: "number \<Rightarrow> number" where
  "js_neg NaN = NaN"
| "js_neg PInf = NInf"
| "js_neg NInf = PInf"
| "js_neg NZero = Fin 0"
| "js_neg (Fin r) = (if r = 0 then NZero else Fin (- r))"

fun js_add :: "number \<Rightarrow> number \<Rightarrow> number" where
  "js_add NaN _ = NaN"
| "js_add _ NaN = NaN"
| "js_add PInf NInf = NaN"
| "js_add NInf PInf = NaN"
| "js_add PInf _ = PInf"
| "js_add _ PInf = PInf"
| "js_add NInf _ = NInf"
| "js_add _ NInf = NInf"
| "js_add NZero NZero = NZero"
| "js_add NZero (Fin b) = Fin b"
| "js_add (Fin a) NZero = Fin a"
| "js_add (Fin a) (Fin b) = rnd (a + b)"

definition js_mul :: "number \<Rightarrow> number \<Rightarrow> number" where
  "js_mul a b =
     (if a = NaN \<or> b = NaN then NaN
      else if is_inf a \<or> is_inf b then
        (if is_zero a \<or> is_zero b then NaN else inf_of (sign_bit a \<noteq> sign_bit b))
      else if is_zero a \<or> is_zero b then zero_of (sign_bit a \<noteq> sign_bit b)
      else rnd (val a * val b))"

definition js_div :: "number \<Rightarrow> number \<Rightarrow> number" where
  "js_div a b =
     (if a = NaN \<or> b = NaN then NaN
      else if is_inf a then (if is_inf b then NaN else inf_of (sign_bit a \<noteq> sign_bit b))
      else if is_inf b then zero_of (sign_bit a \<noteq> sign_bit b)
      else if is_zero b then (if is_zero a then NaN else inf_of (sign_bit a \<noteq> sign_bit b))
      else if is_zero a then zero_of (sign_bit a \<noteq> sign_bit b)
      else rnd (val a / val b))"

fun js_lt :: "number \<Rightarrow> number \<Rightarrow> bool" where
  "js_lt NaN _ = False"
| "js_lt _ NaN = False"
| "js_lt PInf _ = False"
| "js_lt _ PInf = True"
| "js_lt _ NInf = False"
| "js_lt NInf _ = True"
| "js_lt a b = (val a < val b)"

text \<open>
  The operators \<open>+ - * /\<close> and the comparisons of the source are written with the same
  symbols on \<open>number\<close>; \<open>a > b\<close> is \<open>b < a\<close>.
\<close>

instantiation number :: "{plus, minus, uminus, times, inverse, ord}"
begin

definition plus_number :: "number \<Rightarrow> number \<Rightarrow> number" where
  "plus_number a b = js_add a b"

definition minus_number :: "number \<Rightarrow> number \<Rightarrow> number" where
  "minus_number a b = js_add a (js_neg b)"

definition uminus_number :: "number \<Rightarrow> number" where
  "uminus_number a = js_neg a"

definition times_number :: "number \<Rightarrow> number \<Rightarrow> number" where
  "times_number a b = js_mul a b"

definition divide_number :: "number \<Rightarrow> number \<Rightarrow> number" where
  "divide_number a b = js_div a b"

definition inverse_number :: "number \<Rightarrow> number" where
  "inverse_number a = js_div (Fin 1) a"

definition less_number :: "number \<Rightarrow> number \<Rightarrow> bool" where
  "less_number a b = js_lt a b"

definition less_eq_number :: "number \<Rightarrow> number \<Rightarrow> bool" where
  "less_eq_number a b = (a \<noteq> NaN \<and> b \<noteq> NaN \<and> \<not> js_lt b a)"

instance ..

end

subsection \<open>The functions of \<open>Math\<close>\<close>

text \<open>
  The special cases are those of ECMAScript. Where the language leaves the result to the
  implementation (an approximation of the real function), the model takes the real result
  rounded to binary64.
\<close>

fun Math_log10 :: "number \<Rightarrow> number" where
  "Math_log10 NaN = NaN"
| "Math_log10 PInf = PInf"
| "Math_log10 NInf = NaN"
| "Math_log10 NZero = NInf"
| "Math_log10 (Fin r) = (if r < 0 then NaN else if r = 0 then NInf else rnd (log 10 r))"

fun Math_log2 :: "number \<Rightarrow> number" where
  "Math_log2 NaN = NaN"
| "Math_log2 PInf = PInf"
| "Math_log2 NInf = NaN"
| "Math_log2 NZero = NInf"
| "Math_log2 (Fin r) = (if r < 0 then NaN else if r = 0 then NInf else rnd (log 2 r))"

fun Math_sqrt :: "number \<Rightarrow> number" where
  "Math_sqrt NaN = NaN"
| "Math_sqrt PInf = PInf"
| "Math_sqrt NInf = NaN"
| "Math_sqrt NZero = NZero"
| "Math_sqrt (Fin r) = (if r < 0 then NaN else rnd (sqrt r))"

fun Math_ceil :: "number \<Rightarrow> number" where
  "Math_ceil (Fin r) = (if - 1 < r \<and> r < 0 then NZero else Fin (of_int \<lceil>r\<rceil>))"
| "Math_ceil x = x"

fun odd_integer :: "number \<Rightarrow> bool" where
  "odd_integer (Fin r) = (of_int \<lfloor>r\<rfloor> = r \<and> odd \<lfloor>r\<rfloor>)"
| "odd_integer _ = False"

definition Math_pow :: "number \<Rightarrow> number \<Rightarrow> number" where
  "Math_pow b e =
     (if e = NaN then NaN
      else if is_zero e then Fin 1
      else if b = NaN then NaN
      else if b = PInf then (if sign_bit e then Fin 0 else PInf)
      else if b = NInf then
        (if sign_bit e then (if odd_integer e then NZero else Fin 0)
         else (if odd_integer e then NInf else PInf))
      else if b = Fin 0 then (if sign_bit e then PInf else Fin 0)
      else if b = NZero then
        (if sign_bit e then (if odd_integer e then NInf else PInf)
         else (if odd_integer e then NZero else Fin 0))
      else if e = PInf then
        (if 1 < \<bar>val b\<bar> then PInf else if \<bar>val b\<bar> = 1 then NaN else Fin 0)
      else if e = NInf then
        (if 1 < \<bar>val b\<bar> then Fin 0 else if \<bar>val b\<bar> = 1 then NaN else PInf)
      else if val b < 0 \<and> of_int \<lfloor>val e\<rfloor> \<noteq> val e then NaN
      else if val b < 0 then rnd ((if odd \<lfloor>val e\<rfloor> then - 1 else 1) * (\<bar>val b\<bar> powr val e))
      else rnd (val b powr val e))"

section \<open>Link budget\<close>

record LinkBudgetParams =
  transmitterPower :: number
  transmitterGain :: number
  frequency :: number
  distance :: number
  receiverGain :: number
  systemLoss :: number
  fadeMargin :: number
  receiverSensitivity :: number

record LinkBudgetResults =
  eirp :: number
  freeSpaceLoss :: number
  receivedPower :: number
  linkMargin :: number
  isLinkViable :: bool

text \<open>The state of the component: its three \<open>useState\<close> cells.\<close>

record LinkBudget =
  params :: LinkBudgetParams
  results :: "LinkBudgetResults option"
  showAI :: bool

text \<open>
  Every field of \<open>params\<close> is a number: the component starts from numeric defaults and
  \<open>handleInputChange\<close> only ever stores \<open>parseFloat(value) || 0\<close>.

  \<open>calculateLinkBudget\<close> reads \<open>params\<close>, builds \<open>newResults\<close> and stores it with
  \<open>setResults\<close>. The record it builds is \<open>linkBudget_newResults\<close>. The literals \<open>20\<close> and
  \<open>0\<close> are binary64 values; \<open>32.44\<close> is not, and denotes the binary64 value nearest to it.
  Nothing in the \<open>try\<close> block can raise (field reads of a record of numbers, arithmetic,
  \<open>Math\<close> functions, \<open>toFixed(1)\<close>), so the handler always takes the path that stores the
  record and the \<open>catch\<close> block is never entered; the notification shown at the end is
  presentation and is left out. The handlers of the other three components have the same
  shape and are modelled the same way.
\<close>

definition linkBudget_newResults :: "LinkBudgetParams \<Rightarrow> LinkBudgetResults" where
  "linkBudget_newResults p =
     (let eirp = transmitterPower p + transmitterGain p;
          freeSpaceLoss = Fin 20 * Math_log10 (distance p)
                          + Fin 20 * Math_log10 (LinkBudgetParams.frequency p) + rnd 32.44;
          receivedPower = eirp - freeSpaceLoss + receiverGain p - systemLoss p;
          linkMargin = receivedPower - receiverSensitivity p - fadeMargin p;
          isLinkViable = (Fin 0 < linkMargin)
      in \<lparr>eirp = eirp, freeSpaceLoss = freeSpaceLoss, receivedPower = receivedPower,
          linkMargin = linkMargin, isLinkViable = isLinkViable\<rparr>)"

definition calculateLinkBudget :: "LinkBudget \<Rightarrow> LinkBudget" where
  "calculateLinkBudget s =
     s\<lparr>LinkBudget.results := Some (linkBudget_newResults (LinkBudget.params s))\<rparr>"


section \<open>Cellular design\<close>

record CellularParams =
  coverageArea :: number
  trafficDensity :: number
  callDuration :: number
  blockingProbability :: number
  frequency :: number
  baseSationPower :: number
  mobilePower :: number
  pathLossExponent :: number
  shadowingMargin :: number
  interferenceMargin :: number

record CellularResults =
  cellRadius :: number
  numberOfCells :: number
  trafficePerCell :: number
  channelsPerCell :: number
  cellCapacity :: number
  frequencyReuseFactor :: number
  spectrumEfficiency :: number

record CellularDesign =
  params :: CellularParams
  results :: "CellularResults option"
  showAI :: bool

definition cellular_newResults :: "CellularParams \<Rightarrow> CellularResults" where
  "cellular_newResults p =
     (let maxPathLoss = baseSationPower p + mobilePower p - shadowingMargin p
                        - interferenceMargin p;
          cellRadius = Math_pow (Fin 10)
                         ((maxPathLoss - rnd 32.44 - Fin 20 * Math_log10 (CellularParams.frequency p))
                          / (Fin 10 * pathLossExponent p));
          cellArea = rnd 2.598 * Math_pow cellRadius (Fin 2);
          numberOfCells = Math_ceil (coverageArea p / cellArea);
          totalTraffic = trafficDensity p * callDuration p / Fin 3600;
          trafficePerCell = totalTraffic / numberOfCells;
          channelsPerCell = Math_ceil (trafficePerCell + Fin 3 * Math_sqrt trafficePerCell + Fin 2);
          cellCapacity = channelsPerCell * (Fin 1 - blockingProbability p);
          frequencyReuseFactor = Math_ceil (Math_pow (Fin 3 * channelsPerCell / Fin 30) (Fin 2 / Fin 3));
          spectrumEfficiency = cellCapacity / (channelsPerCell * rnd 0.2)
      in \<lparr>cellRadius = cellRadius, numberOfCells = numberOfCells,
          trafficePerCell = trafficePerCell, channelsPerCell = channelsPerCell,
          cellCapacity = cellCapacity, frequencyReuseFactor = frequencyReuseFactor,
          spectrumEfficiency = spectrumEfficiency\<rparr>)"

definition calculateCellular :: "CellularDesign \<Rightarrow> CellularDesign" where
  "calculateCellular s =
     s\<lparr>CellularDesign.results := Some (cellular_newResults (CellularDesign.params s))\<rparr>"

section \<open>Digital communication chain\<close>

record WirelessParams =
  sourceBitRate :: number
  samplingRate :: number
  quantizationBits :: number
  sourceEncodingRatio :: number
  channelEncodingRatio :: number
  interleaverDepth :: number
  burstLength :: number

record WirelessResults =
  samplerRate :: number
  quantizerRate :: number
  sourceEncoderRate :: number
  channelEncoderRate :: number
  interleaverRate :: number
  burstFormatterRate :: number

record WirelessCommunication =
  params :: WirelessParams
  results :: "WirelessResults option"
  showAI :: bool

definition wireless_newResults :: "WirelessParams \<Rightarrow> WirelessResults" where
  "wireless_newResults p =
     (let samplerRate = samplingRate p * quantizationBits p;
          quantizerRate = samplerRate;
          sourceEncoderRate = quantizerRate * sourceEncodingRatio p;
          channelEncoderRate = sourceEncoderRate / channelEncodingRatio p;
          interleaverRate = channelEncoderRate;
          burstFormatterRate = interleaverRate * (burstLength p / (burstLength p + Fin 8.25))
      in \<lparr>samplerRate = samplerRate, quantizerRate = quantizerRate,
          sourceEncoderRate = sourceEncoderRate, channelEncoderRate = channelEncoderRate,
          interleaverRate = interleaverRate, burstFormatterRate = burstFormatterRate\<rparr>)"

definition calculateRates :: "WirelessCommunication \<Rightarrow> WirelessCommunication" where
  "calculateRates s =
     s\<lparr>WirelessCommunication.results :=
         Some (wireless_newResults (WirelessCommunication.params s))\<rparr>"

section \<open>OFDM\<close>

record OFDMParams =
  subcarrierSpacing :: number
  symbolDuration :: number
  cyclicPrefixRatio :: number
  resourceElementsPerSymbol :: number
  symbolsPerResourceBlock :: number
  resourceBlocksParallel :: number
  modulationOrder :: number
  codingRate :: number
  bandwidth :: number

record OFDMResults =
  resourceElementRate :: number
  ofdmSymbolRate :: number
  resourceBlockRate :: number
  maxTransmissionCapacity :: number
  spectralEfficiency :: number

record OFDMSystem =
  params :: OFDMParams
  results :: "OFDMResults option"
  showAI :: bool

text \<open>\<open>bitsPerResourceElement\<close> is a local of \<open>calculateOFDM\<close> that is not stored.\<close>

definition bitsPerResourceElement :: "OFDMParams \<Rightarrow> number" where
  "bitsPerResourceElement p = Math_log2 (modulationOrder p) * codingRate p"

definition ofdm_newResults :: "OFDMParams \<Rightarrow> OFDMResults" where
  "ofdm_newResults p =
     (let resourceElementRate =
            bitsPerResourceElement p
            * (Fin 1000 / (symbolDuration p * (Fin 1 + cyclicPrefixRatio p)));
          ofdmSymbolRate = resourceElementRate * resourceElementsPerSymbol p;
          resourceBlockRate = ofdmSymbolRate * symbolsPerResourceBlock p;
          maxTransmissionCapacity = resourceBlockRate * resourceBlocksParallel p;
          spectralEfficiency = maxTransmissionCapacity / bandwidth p
      in \<lparr>resourceElementRate = resourceElementRate, ofdmSymbolRate = ofdmSymbolRate,
          resourceBlockRate = resourceBlockRate,
          maxTransmissionCapacity = maxTransmissionCapacity,
          spectralEfficiency = spectralEfficiency\<rparr>)"

definition calculateOFDM :: "OFDMSystem \<Rightarrow> OFDMSystem" where
  "calculateOFDM s =
     s\<lparr>OFDMSystem.results := Some (ofdm_newResults (OFDMSystem.params s))\<rparr>"

section \<open>Explanation client\<close>

text \<open>
  A string is the list of its UTF-16 code units. The literals of the source are ASCII, so
  each of their characters is one code unit, the character's code.
\<close>

type_synonym code_unit = "16 word"

type_synonym jsstring = "code_unit list"

definition code_units :: "string \<Rightarrow> jsstring" where
  "code_units s = map (\<lambda>c. of_nat (of_char c)) s"

text \<open>
  The values that \<open>response.json()\<close> can produce, and \<open>undefined\<close>, which a property read
  yields where there is nothing to read. An object is the list of its own properties.
\<close>

datatype jsval =
    Undefined
  | Null
  | Bool bool
  | Num number
  | Str jsstring
  | Arr "jsval list"
  | Obj "(jsstring \<times> jsval) list"

fun truthy :: "jsval \<Rightarrow> bool" where
  "truthy Undefined = False"
| "truthy Null = False"
| "truthy (Bool b) = b"
| "truthy (Num n) = (n \<noteq> NaN \<and> \<not> is_zero n)"
| "truthy (Str s) = (s \<noteq> [])"
| "truthy (Arr xs) = True"
| "truthy (Obj kvs) = True"

datatype key = Name jsstring | Index nat

fun decimal :: "nat \<Rightarrow> string" where
  "decimal n = (if n < 10 then [''0123456789'' ! n]
                else decimal (n div 10) @ [''0123456789'' ! (n mod 10)])"

text \<open>
  Reading a property of a value that is neither \<open>null\<close> nor \<open>undefined\<close>. The names read
  by the client (\<open>candidates\<close>, \<open>content\<close>, \<open>parts\<close>, \<open>text\<close>) are not inherited from any
  prototype, so only own properties, array elements and string characters answer.
\<close>

fun get_property :: "jsval \<Rightarrow> key \<Rightarrow> jsval" where
  "get_property (Obj kvs) (Name n) = (case map_of kvs n of Some v \<Rightarrow> v | None \<Rightarrow> Undefined)"
| "get_property (Obj kvs) (Index i) =
     (case map_of kvs (code_units (decimal i)) of Some v \<Rightarrow> v | None \<Rightarrow> Undefined)"
| "get_property (Arr xs) (Index i) = (if i < length xs then xs ! i else Undefined)"
| "get_property (Str s) (Index i) = (if i < length s then Str [s ! i] else Undefined)"
| "get_property _ _ = Undefined"

datatype exception = Error jsstring | TypeError | SyntaxError

definition nullish :: "jsval \<Rightarrow> bool" where
  "nullish v = (v = Undefined \<or> v = Null)"

text \<open>\<open>v.k\<close> raises a \<open>TypeError\<close> on \<open>null\<close> and \<open>undefined\<close>; \<open>v?.k\<close> yields \<open>undefined\<close> there.\<close>

definition member :: "jsval \<Rightarrow> key \<Rightarrow> exception + jsval" where
  "member v k = (if nullish v then Inl TypeError else Inr (get_property v k))"

definition opt_member :: "jsval \<Rightarrow> key \<Rightarrow> jsval" where
  "opt_member v k = (if nullish v then Undefined else get_property v k)"

text \<open>
  A response: its status, the body as \<open>response.text()\<close> gives it, and the body as
  \<open>response.json()\<close> parses it (\<open>None\<close> when the body is not JSON).
\<close>

record Response =
  status :: nat
  body_text :: jsstring
  json :: "jsval option"

definition ok :: "Response \<Rightarrow> bool" where
  "ok r = (200 \<le> status r \<and> status r \<le> 299)"

datatype fetch_result = Rejected | Resolved Response

datatype toast = ApiKeyRequired | ExplanationGenerated | ErrorToast exception

record AIExplanation =
  apiKey :: jsstring
  explanation :: jsval
  isLoading :: bool

text \<open>
  \<open>String.prototype.trim\<close> removes, at both ends, the code units that are white space or
  line terminators: TAB, LF, VT, FF, CR, SPACE, NO-BREAK SPACE, OGHAM SPACE MARK, EN QUAD to
  HAIR SPACE, LINE SEPARATOR, PARAGRAPH SEPARATOR, NARROW NO-BREAK SPACE, MEDIUM
  MATHEMATICAL SPACE, IDEOGRAPHIC SPACE and the BYTE ORDER MARK.
\<close>

definition white_space :: "code_unit \<Rightarrow> bool" where
  "white_space c =
     (c \<in> set [0x0009, 0x000A, 0x000B, 0x000C, 0x000D, 0x0020, 0x00A0, 0x1680,
               0x2028, 0x2029, 0x202F, 0x205F, 0x3000, 0xFEFF]
      \<or> (0x2000 \<le> c \<and> c \<le> 0x200A))"

definition trim :: "jsstring \<Rightarrow> jsstring" where
  "trim s = rev (dropWhile white_space (rev (dropWhile white_space s)))"

text \<open>\<open>data.candidates?.[0]?.content?.parts?.[0]?.text\<close>\<close>

definition first_text :: "jsval \<Rightarrow> exception + jsval" where
  "first_text data =
     (case member data (Name (code_units ''candidates'')) of
        Inl e \<Rightarrow> Inl e
      | Inr candidates \<Rightarrow>
          (let candidate = opt_member candidates (Index 0);
               content = opt_member candidate (Name (code_units ''content''));
               parts = opt_member content (Name (code_units ''parts''));
               part = opt_member parts (Index 0)
           in Inr (opt_member part (Name (code_units ''text'')))))"

text \<open>
  The body of the \<open>try\<close> block, from the answer of \<open>fetch\<close> on: the value passed to
  \<open>setExplanation\<close>, or the exception raised. A rejected \<open>fetch\<close> raises a \<open>TypeError\<close>, a body
  that is not JSON makes \<open>response.json()\<close> raise a \<open>SyntaxError\<close>. The prompt built from the
  scenario, the parameters and the results goes into the request only; what the client
  does with the answer does not depend on it.
\<close>

definition aiResponse :: "fetch_result \<Rightarrow> exception + jsval" where
  "aiResponse f =
     (case f of
        Rejected \<Rightarrow> Inl TypeError
      | Resolved response \<Rightarrow>
          if \<not> ok response then
            Inl (Error (code_units ''API request failed with status ''
                        @ code_units (decimal (status response))
                        @ code_units '': '' @ body_text response))
          else
            (case json response of
               None \<Rightarrow> Inl SyntaxError
             | Some data \<Rightarrow>
                 (case first_text data of
                    Inl e \<Rightarrow> Inl e
                  | Inr t \<Rightarrow>
                      Inr (if truthy t then t
                           else Str (code_units ''No explanation available.'')))))"

text \<open>
  \<open>getExplanation\<close>: the state after the handler has run, and the notification shown. The
  guard is \<open>!apiKey.trim()\<close>. The description of an error notification is the message of the
  exception caught.
\<close>

definition getExplanation :: "AIExplanation \<Rightarrow> fetch_result \<Rightarrow> AIExplanation \<times> toast" where
  "getExplanation s f =
     (if \<not> truthy (Str (trim (apiKey s))) then (s, ApiKeyRequired)
      else
        (case aiResponse f of
           Inl e \<Rightarrow> (s\<lparr>isLoading := False\<rparr>, ErrorToast e)
         | Inr t \<Rightarrow> (s\<lparr>explanation := t, isLoading := False\<rparr>, ExplanationGenerated)))"

section \<open>Binary64 values\<close>

text \<open>
  The finite reals that are binary64 values: an integer significand below \<open>2 ^ 53\<close> in
  magnitude, scaled by a power of two between \<open>2 ^ - 1074\<close> and \<open>2 ^ 971\<close>.
\<close>

definition binary64 :: "real \<Rightarrow> bool" where
  "binary64 v = (\<exists>m k. v = of_int m * 2 powi k \<and> \<bar>m\<bar> < 2 ^ 53 \<and> - 1074 \<le> k \<and> k \<le> 971)"

section \<open>Example inputs\<close>

text \<open>A link with no gains or losses over unit distance and frequency, whose receiver gain
  equals the constant of the path-loss formula: its margin is exactly zero.\<close>

definition lb_boundary :: LinkBudgetParams where
  "lb_boundary = \<lparr>transmitterPower = Fin 0, transmitterGain = Fin 0,
     frequency = Fin 1, distance = Fin 1, receiverGain = rnd 32.44, systemLoss = Fin 0,
     fadeMargin = Fin 0, receiverSensitivity = Fin 0\<rparr>"

text \<open>The defaults with which the four components start.\<close>

definition lb_default :: LinkBudgetParams where
  "lb_default = \<lparr>transmitterPower = Fin 30, transmitterGain = Fin 15,
     frequency = Fin 2400, distance = Fin 10, receiverGain = Fin 12, systemLoss = Fin 3,
     fadeMargin = Fin 10, receiverSensitivity = Fin (- 95)\<rparr>"

definition cellular_default :: CellularParams where
  "cellular_default = \<lparr>coverageArea = Fin 100, trafficDensity = Fin 50,
     callDuration = Fin 120, blockingProbability = rnd 0.02, frequency = Fin 900,
     baseSationPower = Fin 43, mobilePower = Fin 33, pathLossExponent = Fin 3.5,
     shadowingMargin = Fin 8, interferenceMargin = Fin 3\<rparr>"

definition wireless_default :: WirelessParams where
  "wireless_default = \<lparr>sourceBitRate = Fin 64000, samplingRate = Fin 8000,
     quantizationBits = Fin 8, sourceEncodingRatio = Fin 0.5, channelEncodingRatio = Fin 0.75,
     interleaverDepth = Fin 4, burstLength = Fin 148\<rparr>"

definition ofdm_default :: OFDMParams where
  "ofdm_default = \<lparr>subcarrierSpacing = Fin 15000, symbolDuration = rnd 66.67,
     cyclicPrefixRatio = rnd 0.07, resourceElementsPerSymbol = Fin 12,
     symbolsPerResourceBlock = Fin 14, resourceBlocksParallel = Fin 100,
     modulationOrder = Fin 4, codingRate = Fin 0.5, bandwidth = Fin 20000000\<rparr>"

text \<open>A design on unit frequency whose path-loss budget is exactly used up, so that the
  cell radius is 1, with traffic that needs 7 channels and blocking probability 0.1.\<close>

definition cellular_seven :: CellularParams where
  "cellular_seven = \<lparr>coverageArea = Fin 1, trafficDensity = Fin 4556.25,
     callDuration = Fin 1, blockingProbability = rnd 0.1, frequency = Fin 1,
     baseSationPower = rnd 32.44, mobilePower = Fin 0, pathLossExponent = Fin 1,
     shadowingMargin = Fin 0, interferenceMargin = Fin 0\<rparr>"

text \<open>A freshly mounted component holding given parameters.\<close>

definition lb_state :: "LinkBudgetParams \<Rightarrow> LinkBudget" where
  "lb_state p = \<lparr>LinkBudget.params = p, results = None, showAI = False\<rparr>"

definition cellular_state :: "CellularParams \<Rightarrow> CellularDesign" where
  "cellular_state p = \<lparr>CellularDesign.params = p, results = None, showAI = False\<rparr>"

definition wireless_state :: "WirelessParams \<Rightarrow> WirelessCommunication" where
  "wireless_state p = \<lparr>WirelessCommunication.params = p, results = None, showAI = False\<rparr>"

definition ofdm_state :: "OFDMParams \<Rightarrow> OFDMSystem" where
  "ofdm_state p = \<lparr>OFDMSystem.params = p, results = None, showAI = False\<rparr>"

text \<open>
  A reply of the shape the service sends: two candidates of two text parts each, with \<open>t\<close>
  as the first text part of the first candidate. A client holding a key.
\<close>

definition gemini_reply :: "jsval \<Rightarrow> jsval" where
  "gemini_reply t =
     Obj [(code_units ''candidates'',
           Arr [Obj [(code_units ''content'',
                      Obj [(code_units ''parts'',
                            Arr [Obj [(code_units ''text'', t)],
                                 Obj [(code_units ''text'', Str (code_units ''second''))]])])],
                Obj [(code_units ''content'',
                      Obj [(code_units ''parts'',
                            Arr [Obj [(code_units ''text'', Str (code_units ''third''))],
                                 Obj [(code_units ''text'', Str (code_units ''fourth''))]])])]])]"

definition keyed :: AIExplanation where
  "keyed = \<lparr>apiKey = code_units ''k'', explanation = Str [], isLoading = False\<rparr>"

section \<open>Properties of rounding\<close>


lemma rhe_of_int: "rhe (of_int n) = n"
  by (simp add: rhe_def)

lemma rhe_error: "\<bar>of_int (rhe y) - y\<bar> \<le> 1 / 2"
  unfolding rhe_def Let_def by (auto; linarith)

lemma rhe_mono_le: 
  assumes "y \<le> of_int m" shows "rhe y \<le> m"
proof -
  have f: "\<lfloor>y\<rfloor> \<le> m" using assms by (simp add: floor_le_iff) 
  show ?thesis
  proof (cases "of_int \<lfloor>y\<rfloor> = y")
    case True
    then have "rhe y = \<lfloor>y\<rfloor>" by (metis rhe_of_int)
    with f show ?thesis by simp
  next
    case False
    then have "of_int \<lfloor>y\<rfloor> < y" by linarith
    then have "of_int \<lfloor>y\<rfloor> < (of_int m :: real)" using assms by linarith
    then have "\<lfloor>y\<rfloor> + 1 \<le> m" by linarith
    moreover have "rhe y \<le> \<lfloor>y\<rfloor> + 1" unfolding rhe_def Let_def by auto
    ultimately show ?thesis by linarith
  qed
qed

lemma rhe_nonneg: "0 \<le> y \<Longrightarrow> 0 \<le> rhe y"
  unfolding rhe_def Let_def by (auto; linarith)

lemma two_powr_int: "(2::real) powr real_of_int k = 2 powi k"
  by (simp add: powr_real_of_int')

lemma floor_log2_iff:
  assumes "0 < x"
  shows "(\<lfloor>log 2 x\<rfloor> = k) = (2 powi k \<le> x \<and> x < 2 powi (k + 1))"
  using floor_log_eq_powr_iff[of x 2 k] assms
  unfolding two_powr_int by simp

lemma binade_bounds:
  assumes "x \<noteq> 0"
  shows "2 powi \<lfloor>log 2 \<bar>x\<bar>\<rfloor> \<le> \<bar>x\<bar>" and "\<bar>x\<bar> < 2 powi (\<lfloor>log 2 \<bar>x\<bar>\<rfloor> + 1)"
  using floor_log2_iff[of "\<bar>x\<bar>" "\<lfloor>log 2 \<bar>x\<bar>\<rfloor>"] assms by simp_all

lemma floor_log2_eqI:
  assumes "2 powi e \<le> \<bar>x\<bar>" "\<bar>x\<bar> < 2 powi (e + 1)"
  shows "\<lfloor>log 2 \<bar>x\<bar>\<rfloor> = e"
proof -
  have "0 < (2::real) powi e" by simp
  then have "0 < \<bar>x\<bar>" using assms(1) by linarith
  then show ?thesis
    using floor_log2_iff[of "\<bar>x\<bar>" e] assms by simp
qed


lemma rhe_mono_ge:
  assumes "of_int m \<le> y" shows "m \<le> rhe y"
proof -
  have "m \<le> \<lfloor>y\<rfloor>" using assms by (simp add: le_floor_iff)
  moreover have "\<lfloor>y\<rfloor> \<le> rhe y" unfolding rhe_def Let_def by auto
  ultimately show ?thesis by linarith
qed


lemma powi_less: "(2::real) powi a < 2 powi b \<longleftrightarrow> a < b"
proof
  assume l: "(2::real) powi a < 2 powi b"
  show "a < b"
  proof (rule ccontr)
    assume "\<not> a < b"
    then have "b \<le> a" by simp
    then have "(2::real) powi b \<le> 2 powi a" by (intro power_int_increasing) simp_all
    with l show False by simp
  qed
next
  assume "a < b"
  then show "(2::real) powi a < 2 powi b" by (intro power_int_strict_increasing) simp_all
qed

lemma powi_le: "(2::real) powi a \<le> 2 powi b \<longleftrightarrow> a \<le> b"
  using powi_less[of b a] by (simp add: not_less[symmetric])

lemma quantum_pos: "0 < quantum x"
  by (simp add: quantum_def)

lemma expo_ge: "- 1022 \<le> expo x"
  by (simp add: expo_def)

text \<open>The scaled magnitude lies below \<open>2 ^ 53\<close>, and at or above \<open>2 ^ 52\<close> in the normal range.\<close>

lemma scaled_less:
  assumes "x \<noteq> 0"
  shows "\<bar>x\<bar> / quantum x < 2 ^ 53"
proof -
  have "\<bar>x\<bar> < 2 powi (\<lfloor>log 2 \<bar>x\<bar>\<rfloor> + 1)" using binade_bounds(2)[OF assms] .
  also have "\<dots> \<le> 2 powi (expo x + 1)" by (simp add: powi_le expo_def)
  also have "\<dots> = 2 ^ 53 * quantum x"
    by (simp add: quantum_def power_int_diff power_int_add)
  finally show ?thesis using quantum_pos[of x] by (simp add: pos_divide_less_eq)
qed

lemma scaled_ge:
  assumes "2 powi (- 1022) \<le> \<bar>x\<bar>"
  shows "2 ^ 52 \<le> \<bar>x\<bar> / quantum x"
proof -
  have x: "x \<noteq> 0" using assms by (auto simp: power_int_minus)
  have "(2::real) powi (- 1022) < 2 powi (\<lfloor>log 2 \<bar>x\<bar>\<rfloor> + 1)"
    using assms binade_bounds(2)[OF x] by linarith
  then have "- 1022 < \<lfloor>log 2 \<bar>x\<bar>\<rfloor> + 1" by (rule powi_less[THEN iffD1])
  then have "- 1022 \<le> \<lfloor>log 2 \<bar>x\<bar>\<rfloor>" by linarith
  then have e: "expo x = \<lfloor>log 2 \<bar>x\<bar>\<rfloor>" by (simp add: expo_def)
  have "2 ^ 52 * quantum x = 2 powi expo x"
    by (simp add: quantum_def power_int_diff)
  also have "\<dots> \<le> \<bar>x\<bar>" using binade_bounds(1)[OF x] e by simp
  finally show ?thesis using quantum_pos[of x] by (simp add: pos_le_divide_eq)
qed


lemma rnd_Fin:
  assumes "rhe (\<bar>x\<bar> / quantum x) = n" "n \<noteq> 0" "of_int n * quantum x < 2 powi 1024"
  shows "rnd x = Fin (if x < 0 then - (of_int n * quantum x) else of_int n * quantum x)"
  using assms unfolding rnd_def Let_def overflow_threshold_def by (simp only: not_le[symmetric] if_False)

lemma rnd_FinE:
  assumes "rnd x = Fin v"
  obtains n where "n = rhe (\<bar>x\<bar> / quantum x)" "of_int n * quantum x < 2 powi 1024"
    "v = (if x < 0 then - (of_int n * quantum x) else of_int n * quantum x)"
  using assms unfolding rnd_def Let_def overflow_threshold_def by (auto split: if_splits)

lemma powi_add: "(2::real) powi (a + b) = 2 powi a * 2 powi b"
  by (rule power_int_add) simp

lemma powi_nat: "(2::real) powi (int d) = 2 ^ d"
  by simp

lemma rnd_exact:
  assumes x: "x = of_int m * 2 powi k" and m: "\<bar>m\<bar> < 2 ^ 53" "m \<noteq> 0"
    and k: "- 1074 \<le> k" "k \<le> 971"
  shows "rnd x = Fin x"
proof -
  have xn: "x \<noteq> 0" using x m by simp
  have absx: "\<bar>x\<bar> = of_int \<bar>m\<bar> * 2 powi k" using x by (simp add: abs_mult)
  have mr: "(of_int \<bar>m\<bar> :: real) < 2 ^ 53" using m(1) by (metis of_int_less_numeral_power_cancel_iff)
  have lt: "\<bar>x\<bar> < 2 powi (53 + k)"
  proof -
    have "\<bar>x\<bar> < 2 ^ 53 * 2 powi k" unfolding absx using mr by simp
    also have "\<dots> = 2 powi (53 + k)" unfolding powi_add by simp
    finally show ?thesis .
  qed
  have "2 powi \<lfloor>log 2 \<bar>x\<bar>\<rfloor> < (2::real) powi (53 + k)"
    using binade_bounds(1)[OF xn] lt by linarith
  then have "\<lfloor>log 2 \<bar>x\<bar>\<rfloor> < 53 + k" by (rule powi_less[THEN iffD1])
  then have jk: "expo x - 52 \<le> k" using k(1) by (simp add: expo_def)
  define d where "d = nat (k - (expo x - 52))"
  have kd: "k = (expo x - 52) + int d" using jk by (simp add: d_def)
  have pk: "2 powi k = quantum x * 2 ^ d"
    unfolding quantum_def by (subst kd, subst powi_add) simp
  have sc: "\<bar>x\<bar> / quantum x = of_int (\<bar>m\<bar> * 2 ^ d)"
    unfolding absx pk using quantum_pos[of x] by simp
  have n: "rhe (\<bar>x\<bar> / quantum x) = \<bar>m\<bar> * 2 ^ d" unfolding sc by (rule rhe_of_int)
  have nz: "\<bar>m\<bar> * 2 ^ d \<noteq> 0" using m(2) by simp
  have y: "of_int (\<bar>m\<bar> * 2 ^ d) * quantum x = \<bar>x\<bar>"
    unfolding sc[symmetric] using quantum_pos[of x] by simp
  have "\<bar>x\<bar> < 2 powi 1024"
  proof -
    have "(2::real) powi (53 + k) \<le> 2 powi 1024" using k(2) by (simp only: powi_le) 
    with lt show ?thesis by linarith
  qed
  then have "of_int (\<bar>m\<bar> * 2 ^ d) * quantum x < 2 powi 1024" unfolding y .
  from rnd_Fin[OF n nz this] show ?thesis unfolding y by (simp add: abs_if)
qed


lemma scaled_round_le: "x \<noteq> 0 \<Longrightarrow> rhe (\<bar>x\<bar> / quantum x) \<le> 2 ^ 53"
  using scaled_less[of x] by (intro rhe_mono_le) simp

lemma scaled_round_ge: "2 powi (- 1022) \<le> \<bar>x\<bar> \<Longrightarrow> 2 ^ 52 \<le> rhe (\<bar>x\<bar> / quantum x)"
  using scaled_ge[of x] by (intro rhe_mono_ge) simp

lemma rnd_eval:
  assumes lo: "2 powi e \<le> \<bar>x\<bar>" and hi: "\<bar>x\<bar> < 2 powi (e + 1)"
    and e: "- 1022 \<le> e" "e \<le> 1022"
    and n: "rhe (\<bar>x\<bar> / 2 powi (e - 52)) = n"
  shows "rnd x = Fin ((if x < 0 then - 1 else 1) * (of_int n * 2 powi (e - 52)))"
proof -
  have fl: "\<lfloor>log 2 \<bar>x\<bar>\<rfloor> = e" using lo hi by (rule floor_log2_eqI)
  have q: "quantum x = 2 powi (e - 52)" using e(1) by (simp add: quantum_def expo_def fl)
  have "(2::real) powi (- 1022) \<le> 2 powi e" using e(1) by (simp only: powi_le)
  then have mn: "2 powi (- 1022) \<le> \<bar>x\<bar>" using lo by linarith
  then have xn: "x \<noteq> 0" by (auto simp: power_int_minus)
  have n': "rhe (\<bar>x\<bar> / quantum x) = n" using n q by simp
  have nge: "2 ^ 52 \<le> n" using scaled_round_ge[OF mn] n' by simp
  have nle: "n \<le> 2 ^ 53" using scaled_round_le[OF xn] n' by simp
  have nz: "n \<noteq> 0" using nge by auto
  have "real_of_int n \<le> 2 ^ 53" using nle by (metis of_int_le_numeral_power_cancel_iff)
  then have "of_int n * quantum x \<le> 2 ^ 53 * quantum x"
    using quantum_pos[of x] by simp
  also have "\<dots> = 2 powi (e + 1)"
    unfolding q by (simp add: power_int_diff power_int_add)
  also have "\<dots> < 2 powi 1024" using e(2) by (simp only: powi_less)
  finally have "of_int n * quantum x < 2 powi 1024" .
  from rnd_Fin[OF n' nz this] show ?thesis unfolding q by simp
qed


lemma binary64I:
  "v = of_int m * 2 powi k \<Longrightarrow> \<bar>m\<bar> < 2 ^ 53 \<Longrightarrow> - 1074 \<le> k \<Longrightarrow> k \<le> 971 \<Longrightarrow> binary64 v"
  unfolding binary64_def by blast

lemma binary64_0: "binary64 0"
  unfolding binary64_def by (intro exI[of _ 0]) simp

lemma binary64_minus: "binary64 v \<Longrightarrow> binary64 (- v)"
  unfolding binary64_def
proof (elim exE conjE)
  fix m k assume "v = of_int m * 2 powi k" "\<bar>m\<bar> < 2 ^ 53" "- 1074 \<le> k" "k \<le> 971"
  then show "\<exists>m k. - v = of_int m * 2 powi k \<and> \<bar>m\<bar> < 2 ^ 53 \<and> - 1074 \<le> k \<and> k \<le> 971"
    by (intro exI[of _ "- m"] exI[of _ k]) simp
qed

lemma rnd_0: "rnd 0 = Fin 0"
  by (simp add: rnd_def rhe_def overflow_threshold_def)

lemma rnd_binary64:
  assumes "rnd x = Fin v"
  shows "binary64 v"
proof (cases "x = 0")
  case True
  then show ?thesis using assms binary64_0 by (simp add: rnd_0)
next
  case xn: False
  define n where "n = rhe (\<bar>x\<bar> / quantum x)"
  define j where "j = expo x - 52"
  have q: "quantum x = 2 powi j" by (simp add: quantum_def j_def)
  have jlo: "- 1074 \<le> j" using expo_ge[of x] by (simp add: j_def)
  have nle: "n \<le> 2 ^ 53" unfolding n_def by (rule scaled_round_le[OF xn])
  have nge: "0 \<le> n" unfolding n_def using quantum_pos[of x] by (intro rhe_nonneg) simp
  from rnd_FinE[OF assms] have
    fin: "of_int n * 2 powi j < (2::real) powi 1024" and
    v: "v = (if x < 0 then - (of_int n * 2 powi j) else of_int n * 2 powi j)"
    unfolding n_def q by metis+
  show ?thesis
  proof (cases "n = 0")
    case True
    then have "v = 0" using v by simp
    then show ?thesis using binary64_0 by simp
  next
    case nz: False
    have "binary64 (of_int n * 2 powi j)"
    proof (cases "n = 2 ^ 53")
      case True
      have "(2::real) powi (53 + j) = of_int n * 2 powi j"
        unfolding True powi_add by simp
      then have "(2::real) powi (53 + j) < 2 powi 1024" using fin by simp
      then have "53 + j < 1024" by (rule powi_less[THEN iffD1])
      then have jhi: "j + 1 \<le> 971" by simp
      have "of_int n * 2 powi j = of_int (2 ^ 52) * (2::real) powi (j + 1)"
        unfolding True powi_add by simp
      moreover have "\<bar>2 ^ 52\<bar> < (2::int) ^ 53" by simp
      moreover have "- 1074 \<le> j + 1" using jlo by simp
      ultimately show ?thesis using jhi by (rule binary64I)
    next
      case False
      then have nlt: "\<bar>n\<bar> < 2 ^ 53" using nle nge by simp
      have "j \<le> 971"
      proof (cases "2 powi (- 1022) \<le> \<bar>x\<bar>")
        case True
        have "2 ^ 52 \<le> n" unfolding n_def by (rule scaled_round_ge[OF True])
        then have "(2::real) ^ 52 \<le> of_int n" by (metis numeral_power_le_of_int_cancel_iff)
        then have "(2::real) ^ 52 * 2 powi j \<le> of_int n * 2 powi j" by simp
        moreover have "(2::real) powi (52 + j) = 2 ^ 52 * 2 powi j" unfolding powi_add by simp
        ultimately have "(2::real) powi (52 + j) < 2 powi 1024" using fin by linarith
        then have "52 + j < 1024" by (rule powi_less[THEN iffD1])
        then show ?thesis by simp
      next
        case False
        then have "\<bar>x\<bar> < 2 powi (- 1022)" by simp
        then have "2 powi \<lfloor>log 2 \<bar>x\<bar>\<rfloor> < (2::real) powi (- 1022)"
          using binade_bounds(1)[OF xn] by linarith
        then have "\<lfloor>log 2 \<bar>x\<bar>\<rfloor> < - 1022" by (rule powi_less[THEN iffD1])
        then show ?thesis by (simp add: j_def expo_def)
      qed
      with refl nlt jlo show ?thesis by (rule binary64I)
    qed
    then show ?thesis unfolding v using binary64_minus by simp
  qed
qed

lemma rnd_binary64_id:
  assumes "binary64 v"
  shows "rnd v = Fin v"
proof (cases "v = 0")
  case True
  then show ?thesis by (simp add: rnd_0)
next
  case False
  from assms obtain m k where mk: "v = of_int m * 2 powi k" "\<bar>m\<bar> < 2 ^ 53" "- 1074 \<le> k" "k \<le> 971"
    unfolding binary64_def by blast
  then have "m \<noteq> 0" using False by auto
  then show ?thesis using mk by (intro rnd_exact[of v m k])
qed

lemma rnd_idem: "rnd x = Fin v \<Longrightarrow> rnd v = Fin v"
  by (rule rnd_binary64_id) (rule rnd_binary64)


lemma scaled_error: "\<bar>of_int (rhe (\<bar>x\<bar> / quantum x)) * quantum x - \<bar>x\<bar>\<bar> \<le> quantum x / 2"
proof -
  have "\<bar>of_int (rhe (\<bar>x\<bar> / quantum x)) - \<bar>x\<bar> / quantum x\<bar> * quantum x \<le> 1 / 2 * quantum x"
    using rhe_error[of "\<bar>x\<bar> / quantum x"] quantum_pos[of x] by (intro mult_right_mono) simp_all
  moreover have "\<bar>a - \<bar>x\<bar> / quantum x\<bar> * quantum x = \<bar>a * quantum x - \<bar>x\<bar>\<bar>" for a
  proof -
    have "\<bar>a - \<bar>x\<bar> / quantum x\<bar> * quantum x = \<bar>(a - \<bar>x\<bar> / quantum x) * quantum x\<bar>"
      using quantum_pos[of x] by (simp add: abs_mult)
    also have "(a - \<bar>x\<bar> / quantum x) * quantum x = a * quantum x - \<bar>x\<bar>"
      using quantum_pos[of x] by (simp add: field_simps)
    finally show ?thesis .
  qed
  ultimately show ?thesis by simp
qed

lemma quantum_le:
  assumes "2 powi (- 1022) \<le> \<bar>x\<bar>"
  shows "quantum x \<le> \<bar>x\<bar> / 2 ^ 52"
  using scaled_ge[OF assms] quantum_pos[of x] by (simp add: field_simps)

lemma rnd_normal:
  assumes lo: "2 powi (- 1022) \<le> \<bar>x\<bar>" and hi: "\<bar>x\<bar> \<le> 2 powi 1023"
  obtains v where "rnd x = Fin v" "\<bar>v - x\<bar> \<le> \<bar>x\<bar> / 2 ^ 53" "v \<noteq> 0" "(v < 0) = (x < 0)"
proof -
  define n where "n = rhe (\<bar>x\<bar> / quantum x)"
  define y where "y = of_int n * quantum x"
  have nge: "2 ^ 52 \<le> n" unfolding n_def by (rule scaled_round_ge[OF lo])
  then have nz: "n \<noteq> 0" by auto
  have "(0::int) < 2 ^ 52" by simp
  then have "0 < n" using nge by linarith
  then have ypos: "0 < y" unfolding y_def using quantum_pos[of x] by simp
  have err: "\<bar>y - \<bar>x\<bar>\<bar> \<le> \<bar>x\<bar> / 2 ^ 53"
  proof -
    have "\<bar>y - \<bar>x\<bar>\<bar> \<le> quantum x / 2" unfolding y_def n_def by (rule scaled_error)
    also have "\<dots> \<le> (\<bar>x\<bar> / 2 ^ 52) / 2" using quantum_le[OF lo] by simp
    also have "\<dots> = \<bar>x\<bar> / 2 ^ 53" by simp
    finally show ?thesis .
  qed
  have "y \<le> \<bar>x\<bar> + \<bar>x\<bar> / 2 ^ 53" using err by linarith
  also have "\<dots> \<le> 2 powi 1023 + 2 powi 1023 / 2 ^ 53"
    using hi by (intro add_mono divide_right_mono) simp_all
  also have "\<dots> < 2 powi 1023 + 2 powi 1023" by (simp add: field_simps)
  also have "\<dots> = 2 powi 1024" by simp
  finally have fin: "of_int n * quantum x < 2 powi 1024" unfolding y_def .
  have r: "rnd x = Fin (if x < 0 then - y else y)"
    using rnd_Fin[OF n_def[symmetric] nz fin] unfolding y_def .
  show ?thesis
  proof (rule that[OF r])
    show "\<bar>(if x < 0 then - y else y) - x\<bar> \<le> \<bar>x\<bar> / 2 ^ 53"
      using err by (auto simp: abs_if split: if_splits)
    show "(if x < 0 then - y else y) \<noteq> 0" using ypos by auto
    show "((if x < 0 then - y else y) < 0) = (x < 0)" using ypos by auto
  qed
qed

lemma rnd_not_NaN: "rnd x \<noteq> NaN"
  unfolding rnd_def Let_def by simp


lemma quantum_uminus: "quantum (- x) = quantum x"
  by (simp add: quantum_def expo_def)

lemma rnd_uminus: "x \<noteq> 0 \<Longrightarrow> rnd (- x) = js_neg (rnd x)"
  unfolding rnd_def Let_def quantum_uminus
  using quantum_pos[of x] by (auto simp: not_le)

section \<open>Literals\<close>

lemma lit_32_44: "rnd (811 / 25) = Fin (570690515280855 / 17592186044416)"
  by (rule rnd_eval[where e = "5" and n = 4565524122246840, THEN trans]) (simp_all add: rhe_def)

section \<open>Link viability\<close>

lemma lb_boundary_margin: "linkMargin (linkBudget_newResults lb_boundary) = Fin 0"
  by (simp add: linkBudget_newResults_def lb_boundary_def Let_def lit_32_44 rnd_0
      plus_number_def minus_number_def times_number_def js_mul_def zero_of_def
      rnd_idem[OF lit_32_44] rnd_uminus)

text \<open>
  C5. \<open>calculateLinkBudget\<close> stores a result record whose \<open>isLinkViable\<close> is true exactly
  when its \<open>linkMargin\<close> is greater than zero in the sense of JavaScript's \<open>>\<close>; when the
  margin is zero (of either sign) the link is not viable.
\<close>

theorem isLinkViable_iff_margin_positive:
  "\<exists>r. LinkBudget.results (calculateLinkBudget s) = Some r
       \<and> isLinkViable r = (linkMargin r > Fin 0)
       \<and> (is_zero (linkMargin r) \<longrightarrow> \<not> isLinkViable r)"
  unfolding calculateLinkBudget_def linkBudget_newResults_def Let_def
  by (cases "linkMargin (linkBudget_newResults (LinkBudget.params s))")
     (auto simp: less_number_def linkBudget_newResults_def Let_def elim: is_zero.elims)

theorem isLinkViable_boundary_witness:
  "linkMargin (linkBudget_newResults lb_boundary) = Fin 0
   \<and> is_zero (linkMargin (linkBudget_newResults lb_boundary))
   \<and> \<not> isLinkViable (linkBudget_newResults lb_boundary)"
  using isLinkViable_iff_margin_positive
          [of "\<lparr>LinkBudget.params = lb_boundary, results = None, showAI = False\<rparr>"]
        lb_boundary_margin
  by (simp add: calculateLinkBudget_def less_number_def)

section \<open>Unused parameters\<close>

text \<open>
  C7. Two parameter records of the digital chain that differ only in \<open>sourceBitRate\<close> and
  \<open>interleaverDepth\<close> (the second is the first with those two fields overwritten) give
  the same result record, and so do two OFDM records that differ only in
  \<open>subcarrierSpacing\<close>.
\<close>

theorem unused_parameters_ignored:
  "WirelessCommunication.results
     (calculateRates (s\<lparr>WirelessCommunication.params :=
        (WirelessCommunication.params s)\<lparr>sourceBitRate := a, interleaverDepth := b\<rparr>\<rparr>))
     = WirelessCommunication.results (calculateRates s)
   \<and> OFDMSystem.results
     (calculateOFDM (t\<lparr>OFDMSystem.params := (OFDMSystem.params t)\<lparr>subcarrierSpacing := c\<rparr>\<rparr>))
     = OFDMSystem.results (calculateOFDM t)"
  by (simp add: calculateRates_def wireless_newResults_def calculateOFDM_def ofdm_newResults_def
        bitsPerResourceElement_def)

section \<open>Determinism\<close>

text \<open>
  C8. The record a calculator stores depends on the parameters alone: two component
  states with the same parameters, whatever their earlier results and flags, end with
  the same result record, bit for bit (equal numbers of the model are the same binary64
  value, the same infinity, the same zero, or both \<open>NaN\<close>).
\<close>

theorem results_determined_by_params:
  "(LinkBudget.params s1 = LinkBudget.params s2 \<longrightarrow>
      LinkBudget.results (calculateLinkBudget s1) = LinkBudget.results (calculateLinkBudget s2))
   \<and> (CellularDesign.params c1 = CellularDesign.params c2 \<longrightarrow>
      CellularDesign.results (calculateCellular c1) = CellularDesign.results (calculateCellular c2))
   \<and> (WirelessCommunication.params w1 = WirelessCommunication.params w2 \<longrightarrow>
      WirelessCommunication.results (calculateRates w1)
      = WirelessCommunication.results (calculateRates w2))
   \<and> (OFDMSystem.params o1 = OFDMSystem.params o2 \<longrightarrow>
      OFDMSystem.results (calculateOFDM o1) = OFDMSystem.results (calculateOFDM o2))"
  by (simp add: calculateLinkBudget_def calculateCellular_def calculateRates_def calculateOFDM_def)

theorem results_determined_by_params_witness:
  "LinkBudget.results (calculateLinkBudget (lb_state lb_default))
   = LinkBudget.results (calculateLinkBudget
       \<lparr>LinkBudget.params = lb_default, results = Some (linkBudget_newResults lb_boundary),
        showAI = True\<rparr>)
   \<and> CellularDesign.results (calculateCellular (cellular_state cellular_default))
   = CellularDesign.results (calculateCellular
       \<lparr>CellularDesign.params = cellular_default, results = None, showAI = True\<rparr>)
   \<and> WirelessCommunication.results (calculateRates (wireless_state wireless_default))
   = WirelessCommunication.results (calculateRates
       \<lparr>WirelessCommunication.params = wireless_default, results = None, showAI = True\<rparr>)
   \<and> OFDMSystem.results (calculateOFDM (ofdm_state ofdm_default))
   = OFDMSystem.results (calculateOFDM
       \<lparr>OFDMSystem.params = ofdm_default, results = None, showAI = True\<rparr>)"
  using results_determined_by_params
    [of "lb_state lb_default"
        "\<lparr>LinkBudget.params = lb_default, results = Some (linkBudget_newResults lb_boundary),
          showAI = True\<rparr>"
        "cellular_state cellular_default"
        "\<lparr>CellularDesign.params = cellular_default, results = None, showAI = True\<rparr>"
        "wireless_state wireless_default"
        "\<lparr>WirelessCommunication.params = wireless_default, results = None, showAI = True\<rparr>"
        "ofdm_state ofdm_default"
        "\<lparr>OFDMSystem.params = ofdm_default, results = None, showAI = True\<rparr>"]
  by (simp add: lb_state_def cellular_state_def wireless_state_def ofdm_state_def)

section \<open>Cellular design formulas\<close>

text \<open>
  C2. \<open>calculateCellular\<close> stores a record whose fields are the stated formulas of the
  parameters, each operator being the binary64 one: the maximum path loss, the cell radius
  as a power of ten, the number of cells as the ceiling of the coverage area over the
  hexagon area \<open>2.598 * cellRadius ^ 2\<close>, the traffic per cell, the channels per cell, the
  cell capacity, the reuse factor and the spectrum efficiency. (The source spells two of
  the names \<open>baseSationPower\<close> and \<open>trafficePerCell\<close>.)
\<close>

theorem cellular_formulas:
  "\<exists>r. CellularDesign.results (calculateCellular s) = Some r \<and>
     (let p = CellularDesign.params s;
          maxPathLoss = baseSationPower p + mobilePower p - shadowingMargin p - interferenceMargin p
      in cellRadius r = Math_pow (Fin 10)
             ((maxPathLoss - rnd 32.44 - Fin 20 * Math_log10 (CellularParams.frequency p))
              / (Fin 10 * pathLossExponent p))
       \<and> numberOfCells r = Math_ceil (coverageArea p / (rnd 2.598 * Math_pow (cellRadius r) (Fin 2)))
       \<and> trafficePerCell r = (trafficDensity p * callDuration p / Fin 3600) / numberOfCells r
       \<and> channelsPerCell r =
           Math_ceil (trafficePerCell r + Fin 3 * Math_sqrt (trafficePerCell r) + Fin 2)
       \<and> cellCapacity r = channelsPerCell r * (Fin 1 - blockingProbability p)
       \<and> frequencyReuseFactor r =
           Math_ceil (Math_pow (Fin 3 * channelsPerCell r / Fin 30) (Fin 2 / Fin 3))
       \<and> spectrumEfficiency r = cellCapacity r / (channelsPerCell r * rnd 0.2))"
  by (simp add: calculateCellular_def cellular_newResults_def Let_def)

section \<open>Degenerate inputs\<close>

lemma lit_2_598: "rnd (1299 / 500) = Fin (2925087957977137 / 1125899906842624)"
  by (rule rnd_eval[where e = "1" and n = 5850175915954274, THEN trans]) (simp_all add: rhe_def)

lemma add_non_finite: "\<not> is_finite a \<or> \<not> is_finite b \<Longrightarrow> \<not> is_finite (a + b)"
  by (cases a; cases b; simp add: plus_number_def)

lemma js_neg_finite: "is_finite (js_neg a) = is_finite a"
  by (cases a) simp_all

lemma sub_non_finite: "\<not> is_finite a \<or> \<not> is_finite b \<Longrightarrow> \<not> is_finite (a - b)"
  by (cases a; cases b; simp add: minus_number_def)

lemma mul_non_finite: "\<not> is_finite a \<or> \<not> is_finite b \<Longrightarrow> \<not> is_finite (a * b)"
  by (cases a; cases b; simp add: times_number_def js_mul_def inf_of_def)

lemma div_non_finite: "\<not> is_finite a \<Longrightarrow> \<not> is_finite (a / b)"
  by (cases a; cases b; simp add: divide_number_def js_div_def inf_of_def)

lemma div_by_zero: "is_zero b \<Longrightarrow> \<not> is_finite (a / b)"
  by (cases a; cases b; simp add: divide_number_def js_div_def inf_of_def)

lemma ceil_non_finite: "\<not> is_finite a \<Longrightarrow> \<not> is_finite (Math_ceil a)"
  by (cases a) simp_all

lemma log10_zero: "is_zero a \<Longrightarrow> Math_log10 a = NInf"
  by (cases a) simp_all

lemma log2_nonpositive: "a \<le> Fin 0 \<Longrightarrow> \<not> is_finite (Math_log2 a)"
  by (cases a) (auto simp: less_eq_number_def)

lemma mul_zero: "is_finite a \<Longrightarrow> is_zero b \<Longrightarrow> is_zero (a * b)"
  by (cases a; cases b; simp add: times_number_def js_mul_def zero_of_def)

lemma pow_ten_non_finite:
  "\<not> is_finite e \<Longrightarrow> \<not> is_finite (Math_pow (Fin 10) e) \<or> Math_pow (Fin 10) e = Fin 0"
  by (cases e) (simp_all add: Math_pow_def)

lemma pow_zero_two: "Math_pow (Fin 0) (Fin 2) = Fin 0"
  by (simp add: Math_pow_def)

lemma log10_zero_scaled: "is_zero a \<Longrightarrow> \<not> is_finite (Fin 20 * Math_log10 a)"
  by (intro mul_non_finite) (simp add: log10_zero)

lemma linkBudget_degenerate:
  assumes "is_zero (LinkBudgetParams.frequency p) \<or> is_zero (distance p)"
  shows "\<not> is_finite (freeSpaceLoss (linkBudget_newResults p))"
    and "\<not> is_finite (receivedPower (linkBudget_newResults p))"
    and "\<not> is_finite (linkMargin (linkBudget_newResults p))"
proof -
  have "\<not> is_finite (Fin 20 * Math_log10 (distance p))
        \<or> \<not> is_finite (Fin 20 * Math_log10 (LinkBudgetParams.frequency p))"
    using assms log10_zero_scaled by blast
  then have f: "\<not> is_finite (freeSpaceLoss (linkBudget_newResults p))"
    by (simp add: linkBudget_newResults_def Let_def add_non_finite)
  then show "\<not> is_finite (freeSpaceLoss (linkBudget_newResults p))" .
  have r: "receivedPower (linkBudget_newResults p)
        = eirp (linkBudget_newResults p) - freeSpaceLoss (linkBudget_newResults p)
          + receiverGain p - systemLoss p"
    by (simp add: linkBudget_newResults_def Let_def)
  show r': "\<not> is_finite (receivedPower (linkBudget_newResults p))"
    unfolding r using f by (simp add: sub_non_finite add_non_finite)
  have m: "linkMargin (linkBudget_newResults p)
        = receivedPower (linkBudget_newResults p) - receiverSensitivity p - fadeMargin p"
    by (simp add: linkBudget_newResults_def Let_def)
  show "\<not> is_finite (linkMargin (linkBudget_newResults p))"
    unfolding m using r' by (simp add: sub_non_finite)
qed

lemma cellular_degenerate:
  assumes "is_zero (CellularParams.frequency p) \<or> is_zero (pathLossExponent p)"
  shows "\<not> is_finite (cellRadius (cellular_newResults p))
         \<or> \<not> is_finite (numberOfCells (cellular_newResults p))"
proof -
  define num where "num = baseSationPower p + mobilePower p - shadowingMargin p
      - interferenceMargin p - rnd 32.44 - Fin 20 * Math_log10 (CellularParams.frequency p)"
  define e where "e = num / (Fin 10 * pathLossExponent p)"
  have r: "cellRadius (cellular_newResults p) = Math_pow (Fin 10) e"
    by (simp add: cellular_newResults_def Let_def e_def num_def)
  have n: "numberOfCells (cellular_newResults p)
      = Math_ceil (coverageArea p / (rnd 2.598 * Math_pow (Math_pow (Fin 10) e) (Fin 2)))"
    by (simp add: cellular_newResults_def Let_def e_def num_def)
  have "\<not> is_finite e"
  proof (cases "is_zero (pathLossExponent p)")
    case True
    then have "is_zero (Fin 10 * pathLossExponent p)" by (intro mul_zero) simp_all
    then show ?thesis unfolding e_def by (rule div_by_zero)
  next
    case False
    then have "is_zero (CellularParams.frequency p)" using assms by simp
    then have "\<not> is_finite (Fin 20 * Math_log10 (CellularParams.frequency p))"
      by (rule log10_zero_scaled)
    then have "\<not> is_finite num" unfolding num_def by (simp add: sub_non_finite)
    then show ?thesis unfolding e_def by (rule div_non_finite)
  qed
  then consider "\<not> is_finite (Math_pow (Fin 10) e)" | "Math_pow (Fin 10) e = Fin 0"
    using pow_ten_non_finite by blast
  then show ?thesis
  proof cases
    case 1
    then show ?thesis unfolding r by simp
  next
    case 2
    have "is_zero (rnd 2.598 * Math_pow (Math_pow (Fin 10) e) (Fin 2))"
      unfolding 2 pow_zero_two by (intro mul_zero) (simp_all add: lit_2_598)
    then have "\<not> is_finite (numberOfCells (cellular_newResults p))"
      unfolding n by (intro ceil_non_finite div_by_zero)
    then show ?thesis by simp
  qed
qed

lemma wireless_degenerate:
  assumes "is_zero (channelEncodingRatio p)"
  shows "\<not> is_finite (channelEncoderRate (wireless_newResults p))"
    and "\<not> is_finite (interleaverRate (wireless_newResults p))"
    and "\<not> is_finite (burstFormatterRate (wireless_newResults p))"
  using assms
  by (simp_all add: wireless_newResults_def Let_def div_by_zero mul_non_finite)

lemma ofdm_degenerate_bandwidth:
  assumes "is_zero (bandwidth p)"
  shows "\<not> is_finite (spectralEfficiency (ofdm_newResults p))"
  using assms by (simp add: ofdm_newResults_def Let_def div_by_zero)

lemma ofdm_degenerate_modulation:
  assumes "modulationOrder p \<le> Fin 0"
  shows "\<not> is_finite (resourceElementRate (ofdm_newResults p))"
    and "\<not> is_finite (ofdmSymbolRate (ofdm_newResults p))"
    and "\<not> is_finite (resourceBlockRate (ofdm_newResults p))"
    and "\<not> is_finite (maxTransmissionCapacity (ofdm_newResults p))"
    and "\<not> is_finite (spectralEfficiency (ofdm_newResults p))"
  using log2_nonpositive[OF assms]
  by (simp_all add: ofdm_newResults_def Let_def bitsPerResourceElement_def
        mul_non_finite div_non_finite)

text \<open>
  C6. Each calculator is a total function of its parameter record: on every record,
  degenerate or not, the handler stores a complete result record. On the degenerate
  inputs the division by zero or the logarithm of a non-positive number shows as an
  infinity or \<open>NaN\<close> in the result: a zero \<open>frequency\<close> or \<open>distance\<close> in the path loss, received
  power and margin of the link budget; a zero \<open>frequency\<close> or \<open>pathLossExponent\<close> in the
  cell radius or the number of cells; a zero \<open>channelEncodingRatio\<close> in the three rates
  from the channel encoder on; a zero \<open>bandwidth\<close> in the spectral efficiency; a
  \<open>modulationOrder\<close> that is \<open>\<le> 0\<close> in all five OFDM results.
\<close>

theorem calculators_never_throw:
  "(\<exists>r. LinkBudget.results (calculateLinkBudget s1) = Some r \<and>
      (is_zero (LinkBudgetParams.frequency (LinkBudget.params s1))
         \<or> is_zero (distance (LinkBudget.params s1)) \<longrightarrow>
       \<not> is_finite (freeSpaceLoss r) \<and> \<not> is_finite (receivedPower r)
         \<and> \<not> is_finite (linkMargin r)))
   \<and> (\<exists>r. CellularDesign.results (calculateCellular s2) = Some r \<and>
      (is_zero (CellularParams.frequency (CellularDesign.params s2))
         \<or> is_zero (pathLossExponent (CellularDesign.params s2)) \<longrightarrow>
       \<not> is_finite (cellRadius r) \<or> \<not> is_finite (numberOfCells r)))
   \<and> (\<exists>r. WirelessCommunication.results (calculateRates s3) = Some r \<and>
      (is_zero (channelEncodingRatio (WirelessCommunication.params s3)) \<longrightarrow>
       \<not> is_finite (channelEncoderRate r) \<and> \<not> is_finite (interleaverRate r)
         \<and> \<not> is_finite (burstFormatterRate r)))
   \<and> (\<exists>r. OFDMSystem.results (calculateOFDM s4) = Some r \<and>
      (is_zero (bandwidth (OFDMSystem.params s4)) \<longrightarrow> \<not> is_finite (spectralEfficiency r)) \<and>
      (modulationOrder (OFDMSystem.params s4) \<le> Fin 0 \<longrightarrow>
       \<not> is_finite (resourceElementRate r) \<and> \<not> is_finite (ofdmSymbolRate r)
         \<and> \<not> is_finite (resourceBlockRate r) \<and> \<not> is_finite (maxTransmissionCapacity r)
         \<and> \<not> is_finite (spectralEfficiency r)))"
proof (intro conjI)
  show "\<exists>r. LinkBudget.results (calculateLinkBudget s1) = Some r \<and>
      (is_zero (LinkBudgetParams.frequency (LinkBudget.params s1))
         \<or> is_zero (distance (LinkBudget.params s1)) \<longrightarrow>
       \<not> is_finite (freeSpaceLoss r) \<and> \<not> is_finite (receivedPower r)
         \<and> \<not> is_finite (linkMargin r))"
    using linkBudget_degenerate[of "LinkBudget.params s1"]
    by (simp add: calculateLinkBudget_def)
  show "\<exists>r. CellularDesign.results (calculateCellular s2) = Some r \<and>
      (is_zero (CellularParams.frequency (CellularDesign.params s2))
         \<or> is_zero (pathLossExponent (CellularDesign.params s2)) \<longrightarrow>
       \<not> is_finite (cellRadius r) \<or> \<not> is_finite (numberOfCells r))"
    using cellular_degenerate[of "CellularDesign.params s2"]
    by (simp add: calculateCellular_def)
  show "\<exists>r. WirelessCommunication.results (calculateRates s3) = Some r \<and>
      (is_zero (channelEncodingRatio (WirelessCommunication.params s3)) \<longrightarrow>
       \<not> is_finite (channelEncoderRate r) \<and> \<not> is_finite (interleaverRate r)
         \<and> \<not> is_finite (burstFormatterRate r))"
    using wireless_degenerate[of "WirelessCommunication.params s3"]
    by (simp add: calculateRates_def)
  show "\<exists>r. OFDMSystem.results (calculateOFDM s4) = Some r \<and>
      (is_zero (bandwidth (OFDMSystem.params s4)) \<longrightarrow> \<not> is_finite (spectralEfficiency r)) \<and>
      (modulationOrder (OFDMSystem.params s4) \<le> Fin 0 \<longrightarrow>
       \<not> is_finite (resourceElementRate r) \<and> \<not> is_finite (ofdmSymbolRate r)
         \<and> \<not> is_finite (resourceBlockRate r) \<and> \<not> is_finite (maxTransmissionCapacity r)
         \<and> \<not> is_finite (spectralEfficiency r))"
    using ofdm_degenerate_bandwidth[of "OFDMSystem.params s4"]
      ofdm_degenerate_modulation[of "OFDMSystem.params s4"]
    by (simp add: calculateOFDM_def)
qed

section \<open>Explanation client\<close>

lemma trim_empty_iff: "trim s = [] \<longleftrightarrow> (\<forall>c \<in> set s. white_space c)"
proof -
  have "(\<forall>c \<in> set (dropWhile white_space s). white_space c) \<longleftrightarrow> (\<forall>c \<in> set s. white_space c)"
    by (induction s) simp_all
  then show ?thesis by (simp add: trim_def dropWhile_eq_Nil_conv)
qed

lemma trim_k: "truthy (Str (trim (code_units ''k'')))"
  by (simp add: trim_def code_units_def white_space_def)

lemma opt_member_get_property: "opt_member v k = get_property v k"
  by (cases v) (simp_all add: opt_member_def nullish_def)

lemma foldl_get_property_Undefined: "foldl get_property Undefined ks = Undefined"
  by (induction ks) simp_all

lemma foldl_get_property_nullish:
  assumes "nullish v" and "ks \<noteq> []"
  shows "foldl get_property v ks = Undefined"
proof -
  obtain k ks' where ks: "ks = k # ks'" using assms(2) by (cases ks) auto
  have "get_property v k = Undefined" using assms(1) by (auto simp: nullish_def)
  then show ?thesis by (simp add: ks foldl_get_property_Undefined)
qed

lemma absent_not_truthy:
  assumes "nullish (foldl get_property d (take i path))"
  shows "\<not> truthy (foldl get_property d path)"
proof (cases "drop i path = []")
  case True
  then have "take i path = path" by simp
  then show ?thesis using assms by (auto simp: nullish_def)
next
  case False
  have "foldl get_property d path
        = foldl get_property (foldl get_property d (take i path)) (drop i path)"
    by (metis append_take_drop_id foldl_append)
  then show ?thesis using foldl_get_property_nullish[OF assms False] by simp
qed

lemma first_text_path:
  "first_text d =
     (if nullish d then Inl TypeError
      else Inr (foldl get_property d
                  [Name (code_units ''candidates''), Index 0, Name (code_units ''content''),
                   Name (code_units ''parts''), Index 0, Name (code_units ''text'')]))"
  by (simp add: first_text_def member_def opt_member_get_property)

text \<open>
  C9, as the client behaves. With a key entered and a 2xx response: when the body is a JSON
  object whose \<open>candidates\<close> is an array, whose first candidate is an object with a
  \<open>content\<close> object, whose \<open>parts\<close> is an array with an object first, the client stores that
  first part's \<open>text\<close> if it is truthy and the literal \<open>No explanation available.\<close> if it is
  falsy (the empty string, for one); for every JSON body other than \<open>null\<close> it stores the
  value found by reading \<open>candidates\<close>, \<open>0\<close>, \<open>content\<close>, \<open>parts\<close>, \<open>0\<close>, \<open>text\<close> one after
  the other if that value is truthy, and the literal otherwise; whenever one of these reads
  gives \<open>undefined\<close> or \<open>null\<close>, so that the path is absent, it stores the literal; when the
  body is \<open>null\<close> the request fails with the \<open>TypeError\<close> of reading \<open>data.candidates\<close> and
  nothing is stored. When the status is not 2xx the request fails, and the notification
  shows the status and the response body.
\<close>

theorem explanation_response_handling:
  assumes key: "truthy (Str (trim (apiKey s)))"
  shows
    "let path = [Name (code_units ''candidates''), Index 0, Name (code_units ''content''),
                 Name (code_units ''parts''), Index 0, Name (code_units ''text'')];
         fallback = Str (code_units ''No explanation available.'')
     in (ok r \<and> json r = Some (Obj data)
           \<and> map_of data (code_units ''candidates'') = Some (Arr (Obj candidate # candidates))
           \<and> map_of candidate (code_units ''content'') = Some (Obj content)
           \<and> map_of content (code_units ''parts'') = Some (Arr (Obj part # parts))
           \<and> map_of part (code_units ''text'') = Some t \<longrightarrow>
         getExplanation s (Resolved r)
         = (s\<lparr>explanation := (if truthy t then t else fallback), isLoading := False\<rparr>,
            ExplanationGenerated))
      \<and> (ok r \<and> json r = Some d \<and> \<not> nullish d \<longrightarrow>
         getExplanation s (Resolved r)
         = (s\<lparr>explanation := (if truthy (foldl get_property d path)
                                then foldl get_property d path else fallback),
               isLoading := False\<rparr>, ExplanationGenerated))
      \<and> (ok r \<and> json r = Some d \<and> \<not> nullish d
           \<and> nullish (foldl get_property d (take i path)) \<longrightarrow>
         getExplanation s (Resolved r)
         = (s\<lparr>explanation := fallback, isLoading := False\<rparr>, ExplanationGenerated))
      \<and> (ok r \<and> json r = Some d \<and> nullish d \<longrightarrow>
         getExplanation s (Resolved r) = (s\<lparr>isLoading := False\<rparr>, ErrorToast TypeError))
      \<and> (\<not> ok r \<longrightarrow>
         getExplanation s (Resolved r)
         = (s\<lparr>isLoading := False\<rparr>,
            ErrorToast (Error (code_units ''API request failed with status ''
                               @ code_units (decimal (status r))
                               @ code_units '': '' @ body_text r))))"
proof -
  let ?path = "[Name (code_units ''candidates''), Index 0, Name (code_units ''content''),
                Name (code_units ''parts''), Index 0, Name (code_units ''text'')]"
  let ?fallback = "Str (code_units ''No explanation available.'')"
  have shape: "getExplanation s (Resolved r)
         = (s\<lparr>explanation := (if truthy t then t else ?fallback), isLoading := False\<rparr>,
            ExplanationGenerated)"
    if "ok r" "json r = Some (Obj data)"
       "map_of data (code_units ''candidates'') = Some (Arr (Obj candidate # candidates))"
       "map_of candidate (code_units ''content'') = Some (Obj content)"
       "map_of content (code_units ''parts'') = Some (Arr (Obj part # parts))"
       "map_of part (code_units ''text'') = Some t"
    using key that
    by (simp add: getExplanation_def aiResponse_def first_text_path nullish_def)
  have general: "getExplanation s (Resolved r)
         = (s\<lparr>explanation := (if truthy (foldl get_property d ?path)
                                then foldl get_property d ?path else ?fallback),
               isLoading := False\<rparr>, ExplanationGenerated)"
    if "ok r" "json r = Some d" "\<not> nullish d"
    using key that by (simp add: getExplanation_def aiResponse_def first_text_path)
  have absent: "getExplanation s (Resolved r)
         = (s\<lparr>explanation := ?fallback, isLoading := False\<rparr>, ExplanationGenerated)"
    if "ok r" "json r = Some d" "\<not> nullish d"
       "nullish (foldl get_property d (take i ?path))"
    using general[OF that(1-3)] absent_not_truthy[OF that(4)] by simp
  have null: "getExplanation s (Resolved r) = (s\<lparr>isLoading := False\<rparr>, ErrorToast TypeError)"
    if "ok r" "json r = Some d" "nullish d"
    using key that by (simp add: getExplanation_def aiResponse_def first_text_path)
  have failed: "getExplanation s (Resolved r)
         = (s\<lparr>isLoading := False\<rparr>,
            ErrorToast (Error (code_units ''API request failed with status ''
                               @ code_units (decimal (status r))
                               @ code_units '': '' @ body_text r)))"
    if "\<not> ok r"
    using key that by (simp add: getExplanation_def aiResponse_def)
  show ?thesis
    unfolding Let_def using shape general absent null failed by blast
qed


theorem explanation_response_handling_witness:
  "getExplanation keyed
     (Resolved \<lparr>status = 200, body_text = code_units ''{}'',
                json = Some (gemini_reply (Str (code_units ''first'')))\<rparr>)
     = (keyed\<lparr>explanation := Str (code_units ''first''), isLoading := False\<rparr>,
        ExplanationGenerated)
   \<and> getExplanation keyed
     (Resolved \<lparr>status = 200, body_text = code_units ''{}'',
                json = Some (Obj [(code_units ''candidates'', Arr [])])\<rparr>)
     = (keyed\<lparr>explanation := Str (code_units ''No explanation available.''),
              isLoading := False\<rparr>, ExplanationGenerated)
   \<and> getExplanation keyed
     (Resolved \<lparr>status = 200, body_text = code_units ''7'', json = Some (Num (Fin 7))\<rparr>)
     = (keyed\<lparr>explanation := Str (code_units ''No explanation available.''),
              isLoading := False\<rparr>, ExplanationGenerated)
   \<and> getExplanation keyed
     (Resolved \<lparr>status = 200, body_text = code_units ''null'', json = Some Null\<rparr>)
     = (keyed\<lparr>isLoading := False\<rparr>, ErrorToast TypeError)
   \<and> getExplanation keyed
     (Resolved \<lparr>status = 403, body_text = code_units ''denied'', json = None\<rparr>)
     = (keyed\<lparr>isLoading := False\<rparr>,
        ErrorToast (Error (code_units ''API request failed with status 403: denied'')))"
  using
    explanation_response_handling[where s = keyed
      and r = "\<lparr>status = 200, body_text = code_units ''{}'',
                 json = Some (gemini_reply (Str (code_units ''first'')))\<rparr>"
      and data = "[(code_units ''candidates'',
           Arr [Obj [(code_units ''content'',
                      Obj [(code_units ''parts'',
                            Arr [Obj [(code_units ''text'', Str (code_units ''first''))],
                                 Obj [(code_units ''text'', Str (code_units ''second''))]])])],
                Obj [(code_units ''content'',
                      Obj [(code_units ''parts'',
                            Arr [Obj [(code_units ''text'', Str (code_units ''third''))],
                                 Obj [(code_units ''text'', Str (code_units ''fourth''))]])])]])]"
      and candidate = "[(code_units ''content'',
                      Obj [(code_units ''parts'',
                            Arr [Obj [(code_units ''text'', Str (code_units ''first''))],
                                 Obj [(code_units ''text'', Str (code_units ''second''))]])])]"
      and candidates = "[Obj [(code_units ''content'',
                      Obj [(code_units ''parts'',
                            Arr [Obj [(code_units ''text'', Str (code_units ''third''))],
                                 Obj [(code_units ''text'', Str (code_units ''fourth''))]])])]]"
      and content = "[(code_units ''parts'',
                            Arr [Obj [(code_units ''text'', Str (code_units ''first''))],
                                 Obj [(code_units ''text'', Str (code_units ''second''))]])]"
      and part = "[(code_units ''text'', Str (code_units ''first''))]"
      and parts = "[Obj [(code_units ''text'', Str (code_units ''second''))]]"
      and t = "Str (code_units ''first'')"
      and d = "gemini_reply (Str (code_units ''first''))" and i = 6]
    explanation_response_handling[where s = keyed
      and r = "\<lparr>status = 200, body_text = code_units ''{}'',
                 json = Some (Obj [(code_units ''candidates'', Arr [])])\<rparr>"
      and d = "Obj [(code_units ''candidates'', Arr [])]" and i = 2
      and data = "[]" and candidate = "[]" and candidates = "[]" and content = "[]"
      and part = "[]" and parts = "[]" and t = Undefined]
    explanation_response_handling[where s = keyed
      and r = "\<lparr>status = 200, body_text = code_units ''7'', json = Some (Num (Fin 7))\<rparr>"
      and d = "Num (Fin 7)" and i = 1
      and data = "[]" and candidate = "[]" and candidates = "[]" and content = "[]"
      and part = "[]" and parts = "[]" and t = Undefined]
    explanation_response_handling[where s = keyed
      and r = "\<lparr>status = 200, body_text = code_units ''null'', json = Some Null\<rparr>"
      and d = Null and i = 0
      and data = "[]" and candidate = "[]" and candidates = "[]" and content = "[]"
      and part = "[]" and parts = "[]" and t = Undefined]
    explanation_response_handling[where s = keyed
      and r = "\<lparr>status = 403, body_text = code_units ''denied'', json = None\<rparr>"
      and d = Null and i = 0
      and data = "[]" and candidate = "[]" and candidates = "[]" and content = "[]"
      and part = "[]" and parts = "[]" and t = Undefined]
    trim_k
  by (simp add: keyed_def ok_def nullish_def gemini_reply_def code_units_def Let_def)

text \<open>
  Two replies on which the client does not do what C9 says. A 2xx response whose body is
  the JSON value \<open>null\<close>: the path is absent, yet reading \<open>data.candidates\<close> raises, the
  request ends in the error notification and no explanation is stored. A 2xx response
  whose first candidate's first text part is the empty string: the path is there, yet the
  client stores the literal and not the text part.
\<close>

theorem response_handling_counterexample:
  "ok \<lparr>status = 200, body_text = code_units ''null'', json = Some Null\<rparr>
   \<and> getExplanation keyed
       (Resolved \<lparr>status = 200, body_text = code_units ''null'', json = Some Null\<rparr>)
     = (keyed\<lparr>isLoading := False\<rparr>, ErrorToast TypeError)
   \<and> explanation (fst (getExplanation keyed
         (Resolved \<lparr>status = 200, body_text = code_units ''null'', json = Some Null\<rparr>)))
     \<noteq> Str (code_units ''No explanation available.'')
   \<and> ok \<lparr>status = 200, body_text = code_units ''{}'', json = Some (gemini_reply (Str []))\<rparr>
   \<and> foldl get_property (gemini_reply (Str []))
         [Name (code_units ''candidates''), Index 0, Name (code_units ''content''),
          Name (code_units ''parts''), Index 0, Name (code_units ''text'')]
     = Str []
   \<and> explanation (fst (getExplanation keyed
         (Resolved \<lparr>status = 200, body_text = code_units ''{}'',
                    json = Some (gemini_reply (Str []))\<rparr>)))
     = Str (code_units ''No explanation available.'')
   \<and> Str (code_units ''No explanation available.'') \<noteq> Str []"
  by (simp add: getExplanation_def aiResponse_def keyed_def trim_def white_space_def ok_def
        first_text_def member_def opt_member_def nullish_def gemini_reply_def code_units_def)

text \<open>A key of white space only, here a no-break space and an em space, is no key.\<close>

lemma white_space_key_required:
  "getExplanation (keyed\<lparr>apiKey := [0x00A0, 0x2003]\<rparr>) f
   = (keyed\<lparr>apiKey := [0x00A0, 0x2003]\<rparr>, ApiKeyRequired)"
  by (simp add: getExplanation_def trim_def white_space_def)

section \<open>The digital chain on its default input\<close>

lemma w1: "Fin 8000 * Fin 8 = Fin 64000"
  by (simp add: times_number_def js_mul_def, rule rnd_eval[where e = "15" and n = 8796093022208000, THEN trans], simp_all add: rhe_def)

lemma w2: "Fin 64000 * Fin (1 / 2) = Fin 32000"
  by (simp add: times_number_def js_mul_def, rule rnd_eval[where e = "14" and n = 8796093022208000, THEN trans], simp_all add: rhe_def)

lemma w3: "Fin 32000 / Fin (3 / 4) = Fin (5864062014805333 / 137438953472)"
  by (simp add: divide_number_def js_div_def, rule rnd_eval[where e = "15" and n = 5864062014805333, THEN trans], simp_all add: rhe_def)

lemma w4: "Fin 148 + Fin (33 / 4) = Fin (625 / 4)"
  by (simp add: plus_number_def, rule rnd_eval[where e = "7" and n = 5497558138880000, THEN trans], simp_all add: rhe_def)

lemma w5: "Fin 148 / Fin (625 / 4) = Fin (2132904783522667 / 2251799813685248)"
  by (simp add: divide_number_def js_div_def, rule rnd_eval[where e = "- 1" and n = 8531619134090668, THEN trans], simp_all add: rhe_def)

lemma w6: "Fin (5864062014805333 / 137438953472) * Fin (2132904783522667 / 2251799813685248) = Fin (1388609885105903 / 34359738368)"
  by (simp add: times_number_def js_mul_def, rule rnd_eval[where e = "15" and n = 5554439540423612, THEN trans], simp_all add: rhe_def)

lemma wireless_default_results:
  "wireless_newResults (wireless_default\<lparr>sourceBitRate := a, interleaverDepth := b\<rparr>) =
     \<lparr>samplerRate = Fin 64000, quantizerRate = Fin 64000, sourceEncoderRate = Fin 32000,
      channelEncoderRate = Fin (5864062014805333 / 137438953472),
      interleaverRate = Fin (5864062014805333 / 137438953472),
      burstFormatterRate = Fin (1388609885105903 / 34359738368)\<rparr>"
  by (simp add: wireless_newResults_def wireless_default_def Let_def w1 w2 w3 w4 w5 w6)

text \<open>
  C3, with the last figure as the code computes it. The rates follow the chain
  \<open>samplerRate = samplingRate * quantizationBits\<close>, \<open>quantizerRate = samplerRate\<close>,
  \<open>sourceEncoderRate = quantizerRate * sourceEncodingRatio\<close>,
  \<open>channelEncoderRate = sourceEncoderRate / channelEncodingRatio\<close>,
  \<open>interleaverRate = channelEncoderRate\<close>,
  \<open>burstFormatterRate = interleaverRate * (burstLength / (burstLength + 8.25))\<close>; on the
  input \<open>{samplingRate: 8000, quantizationBits: 8, sourceEncodingRatio: 0.5,
  channelEncodingRatio: 0.75, burstLength: 148}\<close>, whatever the two unused fields hold,
  \<open>samplerRate = 64000\<close>, \<open>sourceEncoderRate = 32000\<close>, \<open>channelEncoderRate\<close> is 42666.67 to
  two decimals and \<open>burstFormatterRate\<close> is 40413.87 to two decimals.
\<close>

theorem digital_chain_rates:
  "(\<exists>r. WirelessCommunication.results (calculateRates s) = Some r \<and>
      (let p = WirelessCommunication.params s
       in samplerRate r = samplingRate p * quantizationBits p
        \<and> quantizerRate r = samplerRate r
        \<and> sourceEncoderRate r = quantizerRate r * sourceEncodingRatio p
        \<and> channelEncoderRate r = sourceEncoderRate r / channelEncodingRatio p
        \<and> interleaverRate r = channelEncoderRate r
        \<and> burstFormatterRate r
            = interleaverRate r * (burstLength p / (burstLength p + Fin 8.25))))
   \<and> (\<exists>r. WirelessCommunication.results
           (calculateRates
              (wireless_state (wireless_default\<lparr>sourceBitRate := a, interleaverDepth := b\<rparr>)))
         = Some r
       \<and> samplerRate r = Fin 64000 \<and> sourceEncoderRate r = Fin 32000
       \<and> is_finite (channelEncoderRate r) \<and> \<bar>val (channelEncoderRate r) - 42666.67\<bar> \<le> 0.005
       \<and> is_finite (burstFormatterRate r) \<and> \<bar>val (burstFormatterRate r) - 40413.87\<bar> \<le> 0.005)"
  by (simp add: calculateRates_def wireless_state_def wireless_default_results)
     (simp add: wireless_newResults_def Let_def)

text \<open>On that input \<open>burstFormatterRate\<close> is more than 8 above the figure 40405.33.\<close>

theorem burstFormatterRate_counterexample:
  "val (burstFormatterRate (wireless_newResults wireless_default)) - 40405.33 > 8"
  using wireless_default_results[where a = "Fin 64000" and b = "Fin 4"]
  by (simp add: wireless_default_def)

section \<open>The OFDM rates on their default input\<close>

lemma lit_66_67: "rnd (6667 / 100) = Fin (4691484174324859 / 70368744177664)"
  by (rule rnd_eval[where e = "6" and n = 4691484174324859, THEN trans]) (simp_all add: rhe_def)

lemma lit_0_07: "rnd (7 / 100) = Fin (1261007895663739 / 18014398509481984)"
  by (rule rnd_eval[where e = "- 4" and n = 5044031582654956, THEN trans]) (simp_all add: rhe_def)

lemma log2_4: "Math_log2 (Fin 4) = Fin 2"
proof -
  have "log 2 4 = log 2 (2 ^ 2)" by simp
  also have "\<dots> = 2" by (subst log_nat_power) simp_all
  finally have "log 2 4 = (2::real)" .
  moreover have "rnd 2 = Fin 2"
    by (rule rnd_eval[where e = 1 and n = "2 ^ 52", THEN trans]) (simp_all add: rhe_def)
  ultimately show ?thesis by simp
qed

lemma o1: "Fin 2 * Fin (1 / 2) = Fin 1"
  by (simp add: times_number_def js_mul_def, rule rnd_eval[where e = "0" and n = 4503599627370496, THEN trans], simp_all add: rhe_def)

lemma o2: "Fin 1 + Fin (1261007895663739 / 18014398509481984) = Fin (4818851601286431 / 4503599627370496)"
  by (simp add: plus_number_def, rule rnd_eval[where e = "0" and n = 4818851601286431, THEN trans], simp_all add: rhe_def)

lemma o3: "Fin (4691484174324859 / 70368744177664) * Fin (4818851601286431 / 4503599627370496) = Fin (5019888066527599 / 70368744177664)"
  by (simp add: times_number_def js_mul_def, rule rnd_eval[where e = "6" and n = 5019888066527599, THEN trans], simp_all add: rhe_def)

lemma o4: "Fin 1000 / Fin (5019888066527599 / 70368744177664) = Fin (3945713602787001 / 281474976710656)"
  by (simp add: divide_number_def js_div_def, rule rnd_eval[where e = "3" and n = 7891427205574002, THEN trans], simp_all add: rhe_def)

lemma o5: "Fin 1 * Fin (3945713602787001 / 281474976710656) = Fin (3945713602787001 / 281474976710656)"
  by (simp add: times_number_def js_mul_def, rule rnd_eval[where e = "3" and n = 7891427205574002, THEN trans], simp_all add: rhe_def)

lemma o6: "Fin (3945713602787001 / 281474976710656) * Fin 12 = Fin (2959285202090251 / 17592186044416)"
  by (simp add: times_number_def js_mul_def, rule rnd_eval[where e = "7" and n = 5918570404180502, THEN trans], simp_all add: rhe_def)

lemma o7: "Fin (2959285202090251 / 17592186044416) * Fin 14 = Fin (5178749103657939 / 2199023255552)"
  by (simp add: times_number_def js_mul_def, rule rnd_eval[where e = "11" and n = 5178749103657939, THEN trans], simp_all add: rhe_def)

lemma o8: "Fin (5178749103657939 / 2199023255552) * Fin 100 = Fin (4045897737232765 / 17179869184)"
  by (simp add: times_number_def js_mul_def, rule rnd_eval[where e = "17" and n = 8091795474465530, THEN trans], simp_all add: rhe_def)

lemma o9: "Fin (4045897737232765 / 17179869184) / Fin 20000000 = Fin (3393945012573267 / 288230376151711744)"
  by (simp add: divide_number_def js_div_def, rule rnd_eval[where e = "- 7" and n = 6787890025146534, THEN trans], simp_all add: rhe_def)

lemma ofdm_default_bits:
  "bitsPerResourceElement (ofdm_default\<lparr>subcarrierSpacing := a\<rparr>) = Fin 1"
  by (simp add: bitsPerResourceElement_def ofdm_default_def log2_4 o1 del: Math_log2.simps)

lemma ofdm_default_results:
  "ofdm_newResults (ofdm_default\<lparr>subcarrierSpacing := a\<rparr>) =
     \<lparr>resourceElementRate = Fin (3945713602787001 / 281474976710656),
      ofdmSymbolRate = Fin (2959285202090251 / 17592186044416),
      resourceBlockRate = Fin (5178749103657939 / 2199023255552),
      maxTransmissionCapacity = Fin (4045897737232765 / 17179869184),
      spectralEfficiency = Fin (3393945012573267 / 288230376151711744)\<rparr>"
  by (simp add: ofdm_newResults_def Let_def ofdm_default_bits)
     (simp add: ofdm_default_def lit_66_67 lit_0_07 o2 o3 o4 o5 o6 o7 o8 o9)

text \<open>
  C4, with the figures as the code computes them. The resource element rate is
  \<open>bitsPerResourceElement * (1000 / (symbolDuration * (1 + cyclicPrefixRatio)))\<close>, with the
  constant 1000, where \<open>bitsPerResourceElement = log2(modulationOrder) * codingRate\<close>; on the
  input \<open>{modulationOrder: 4, codingRate: 0.5, symbolDuration: 66.67, cyclicPrefixRatio: 0.07,
  resourceElementsPerSymbol: 12, symbolsPerResourceBlock: 14, resourceBlocksParallel: 100,
  bandwidth: 20000000}\<close>, whatever \<open>subcarrierSpacing\<close> holds, \<open>bitsPerResourceElement\<close> is
  exactly 1 and, to the decimals shown, \<open>resourceElementRate\<close> is 14.018, \<open>ofdmSymbolRate\<close>
  168.22, \<open>resourceBlockRate\<close> 2355.0, \<open>maxTransmissionCapacity\<close> 235502 and
  \<open>spectralEfficiency\<close> 0.01178.
\<close>

theorem ofdm_rates:
  "(\<exists>r. OFDMSystem.results (calculateOFDM s) = Some r \<and>
      (let p = OFDMSystem.params s
       in bitsPerResourceElement p = Math_log2 (modulationOrder p) * codingRate p
        \<and> resourceElementRate r
            = bitsPerResourceElement p
              * (Fin 1000 / (symbolDuration p * (Fin 1 + cyclicPrefixRatio p)))
        \<and> ofdmSymbolRate r = resourceElementRate r * resourceElementsPerSymbol p
        \<and> resourceBlockRate r = ofdmSymbolRate r * symbolsPerResourceBlock p
        \<and> maxTransmissionCapacity r = resourceBlockRate r * resourceBlocksParallel p
        \<and> spectralEfficiency r = maxTransmissionCapacity r / bandwidth p))
   \<and> bitsPerResourceElement (ofdm_default\<lparr>subcarrierSpacing := a\<rparr>) = Fin 1
   \<and> (\<exists>r. OFDMSystem.results
           (calculateOFDM (ofdm_state (ofdm_default\<lparr>subcarrierSpacing := a\<rparr>))) = Some r
       \<and> is_finite (resourceElementRate r) \<and> \<bar>val (resourceElementRate r) - 14.018\<bar> \<le> 0.0005
       \<and> is_finite (ofdmSymbolRate r) \<and> \<bar>val (ofdmSymbolRate r) - 168.22\<bar> \<le> 0.005
       \<and> is_finite (resourceBlockRate r) \<and> \<bar>val (resourceBlockRate r) - 2355.0\<bar> \<le> 0.05
       \<and> is_finite (maxTransmissionCapacity r)
       \<and> \<bar>val (maxTransmissionCapacity r) - 235502\<bar> \<le> 0.5
       \<and> is_finite (spectralEfficiency r) \<and> \<bar>val (spectralEfficiency r) - 0.01178\<bar> \<le> 0.000005)"
  by (simp add: calculateOFDM_def ofdm_state_def ofdm_default_results ofdm_default_bits)
     (simp add: ofdm_newResults_def Let_def bitsPerResourceElement_def)

text \<open>On that input \<open>resourceElementRate\<close> is more than 0.019 below the figure 14.037.\<close>

theorem resourceElementRate_counterexample:
  "14.037 - val (resourceElementRate (ofdm_newResults ofdm_default)) > 0.019"
  using ofdm_default_results[where a = "Fin 15000"]
  by (simp add: ofdm_default_def)

section \<open>The degenerate inputs, evaluated\<close>

lemma cd1: "Fin 43 + Fin 33 = Fin 76"
  by (simp add: plus_number_def, rule rnd_eval[where e = "6" and n = 5348024557502464, THEN trans], simp_all add: rhe_def)

lemma cd2: "Fin 76 - Fin 8 = Fin 68"
  by (simp add: minus_number_def, rule rnd_eval[where e = "6" and n = 4785074604081152, THEN trans], simp_all add: rhe_def)

lemma cd3: "Fin 68 - Fin 3 = Fin 65"
  by (simp add: minus_number_def, rule rnd_eval[where e = "6" and n = 4573968371548160, THEN trans], simp_all add: rhe_def)

lemma cd4: "Fin 65 - Fin (570690515280855 / 17592186044416) = Fin (572801577606185 / 17592186044416)"
  by (simp add: minus_number_def, rule rnd_eval[where e = "5" and n = 4582412620849480, THEN trans], simp_all add: rhe_def)

lemma cd5: "Fin 10 * Fin (7 / 2) = Fin 35"
  by (simp add: times_number_def js_mul_def, rule rnd_eval[where e = "5" and n = 4925812092436480, THEN trans], simp_all add: rhe_def)

lemma lb1: "Fin 30 + Fin 15 = Fin 45"
  by (simp add: plus_number_def, rule rnd_eval[where e = "5" and n = 6333186975989760, THEN trans], simp_all add: rhe_def)

lemma lb2: "Fin 20 * Fin 1 = Fin 20"
  by (simp add: times_number_def js_mul_def, rule rnd_eval[where e = "4" and n = 5629499534213120, THEN trans], simp_all add: rhe_def)

lemma rnd_1: "rnd 1 = Fin 1"
  by (rule rnd_eval[where e = 0 and n = "2 ^ 52", THEN trans]) (simp_all add: rhe_def)

lemma lb_zero_frequency:
  "linkBudget_newResults (lb_default\<lparr>LinkBudgetParams.frequency := Fin 0\<rparr>)
   = \<lparr>eirp = Fin 45, freeSpaceLoss = NInf, receivedPower = PInf, linkMargin = PInf,
      isLinkViable = True\<rparr>"
  by (simp add: linkBudget_newResults_def lb_default_def Let_def lb1 lb2 rnd_1 lit_32_44)
     (simp add: plus_number_def minus_number_def times_number_def js_mul_def inf_of_def
        less_number_def)

lemma lb_zero_distance:
  "linkBudget_newResults (lb_default\<lparr>distance := Fin 0, LinkBudgetParams.frequency := Fin 10\<rparr>)
   = \<lparr>eirp = Fin 45, freeSpaceLoss = NInf, receivedPower = PInf, linkMargin = PInf,
      isLinkViable = True\<rparr>"
  by (simp add: linkBudget_newResults_def lb_default_def Let_def lb1 lb2 rnd_1 lit_32_44)
     (simp add: plus_number_def minus_number_def times_number_def js_mul_def inf_of_def
        less_number_def)

lemma cellular_zero_frequency:
  "cellRadius (cellular_newResults (cellular_default\<lparr>CellularParams.frequency := Fin 0\<rparr>)) = PInf"
  by (simp add: cellular_newResults_def cellular_default_def Let_def cd1 cd2 cd3 cd4 cd5 lit_32_44)
     (simp add: plus_number_def minus_number_def times_number_def divide_number_def js_mul_def
        js_div_def inf_of_def Math_pow_def)

lemma cellular_zero_exponent:
  "cellRadius (cellular_newResults
     (cellular_default\<lparr>CellularParams.frequency := Fin 1, pathLossExponent := Fin 0\<rparr>)) = PInf"
  by (simp add: cellular_newResults_def cellular_default_def Let_def cd1 cd2 cd3 cd4 cd5
        lit_32_44 rnd_0)
     (simp add: plus_number_def minus_number_def times_number_def divide_number_def js_mul_def
        js_div_def inf_of_def zero_of_def Math_pow_def)

lemma wireless_zero_ratio:
  "channelEncoderRate (wireless_newResults (wireless_default\<lparr>channelEncodingRatio := Fin 0\<rparr>))
   = PInf"
  by (simp add: wireless_newResults_def wireless_default_def Let_def w1 w2)
     (simp add: divide_number_def js_div_def inf_of_def)

lemma ofdm_zero_bandwidth:
  "spectralEfficiency (ofdm_newResults (ofdm_default\<lparr>bandwidth := Fin 0\<rparr>)) = PInf"
  by (simp add: ofdm_newResults_def ofdm_default_def Let_def bitsPerResourceElement_def
        log2_4 lit_66_67 lit_0_07 o1 o2 o3 o4 o5 o6 o7 o8 del: Math_log2.simps)
     (simp add: divide_number_def js_div_def inf_of_def)

lemma ofdm_zero_modulation:
  "resourceElementRate (ofdm_newResults (ofdm_default\<lparr>modulationOrder := Fin 0\<rparr>)) = NInf"
  by (simp add: ofdm_newResults_def ofdm_default_def Let_def bitsPerResourceElement_def
        lit_66_67 lit_0_07 o2 o3 o4)
     (simp add: times_number_def js_mul_def inf_of_def)

lemma ofdm_negative_modulation:
  "resourceElementRate (ofdm_newResults (ofdm_default\<lparr>modulationOrder := Fin (- 2)\<rparr>)) = NaN"
  by (simp add: ofdm_newResults_def ofdm_default_def Let_def bitsPerResourceElement_def
        times_number_def js_mul_def)

theorem calculators_never_throw_witness:
  "freeSpaceLoss (linkBudget_newResults (lb_default\<lparr>LinkBudgetParams.frequency := Fin 0\<rparr>)) = NInf
   \<and> linkMargin (linkBudget_newResults
        (lb_default\<lparr>distance := Fin 0, LinkBudgetParams.frequency := Fin 10\<rparr>)) = PInf
   \<and> cellRadius (cellular_newResults (cellular_default\<lparr>CellularParams.frequency := Fin 0\<rparr>)) = PInf
   \<and> cellRadius (cellular_newResults
        (cellular_default\<lparr>CellularParams.frequency := Fin 1, pathLossExponent := Fin 0\<rparr>)) = PInf
   \<and> channelEncoderRate (wireless_newResults (wireless_default\<lparr>channelEncodingRatio := Fin 0\<rparr>))
      = PInf
   \<and> spectralEfficiency (ofdm_newResults (ofdm_default\<lparr>bandwidth := Fin 0\<rparr>)) = PInf
   \<and> resourceElementRate (ofdm_newResults (ofdm_default\<lparr>modulationOrder := Fin 0\<rparr>)) = NInf
   \<and> resourceElementRate (ofdm_newResults (ofdm_default\<lparr>modulationOrder := Fin (- 2)\<rparr>)) = NaN"
  using
    calculators_never_throw
      [of "lb_state (lb_default\<lparr>LinkBudgetParams.frequency := Fin 0\<rparr>)"
          "cellular_state (cellular_default\<lparr>CellularParams.frequency := Fin 0\<rparr>)"
          "wireless_state (wireless_default\<lparr>channelEncodingRatio := Fin 0\<rparr>)"
          "ofdm_state (ofdm_default\<lparr>bandwidth := Fin 0\<rparr>)"]
    calculators_never_throw
      [of "lb_state (lb_default\<lparr>distance := Fin 0, LinkBudgetParams.frequency := Fin 10\<rparr>)"
          "cellular_state
             (cellular_default\<lparr>CellularParams.frequency := Fin 1, pathLossExponent := Fin 0\<rparr>)"
          "wireless_state (wireless_default\<lparr>channelEncodingRatio := Fin 0\<rparr>)"
          "ofdm_state (ofdm_default\<lparr>modulationOrder := Fin 0\<rparr>)"]
    calculators_never_throw
      [of "lb_state (lb_default\<lparr>LinkBudgetParams.frequency := Fin 0\<rparr>)"
          "cellular_state (cellular_default\<lparr>CellularParams.frequency := Fin 0\<rparr>)"
          "wireless_state (wireless_default\<lparr>channelEncodingRatio := Fin 0\<rparr>)"
          "ofdm_state (ofdm_default\<lparr>modulationOrder := Fin (- 2)\<rparr>)"]
    lb_zero_frequency lb_zero_distance cellular_zero_frequency cellular_zero_exponent
    wireless_zero_ratio ofdm_zero_bandwidth ofdm_zero_modulation ofdm_negative_modulation
  by simp

section \<open>The link budget formulas and their default input\<close>

text \<open>Bounds on \<open>log 10 2400\<close> from integer powers: \<open>10 ^ 265 \<le> 24 ^ 192\<close> and
  \<open>24 ^ 455 \<le> 10 ^ 628\<close>.\<close>

lemma powr_ratio_le:
  fixes x :: real
  assumes "0 < q" "(10::real) ^ p \<le> x ^ q" "0 < x"
  shows "real p / real q \<le> log 10 x"
proof -
  have "(10 powr (real p / real q)) ^ q = 10 powr (real p / real q * real q)"
    by (simp add: powr_power)
  also have "\<dots> = 10 powr real p" using assms(1) by simp
  also have "\<dots> = 10 ^ p" by (simp add: powr_realpow)
  finally have "(10 powr (real p / real q)) ^ q \<le> x ^ q" using assms(2) by simp
  then have "10 powr (real p / real q) \<le> x"
    using assms(1,3) by (metis power_le_imp_le_base Suc_pred less_eq_real_def)
  then show ?thesis using assms(3) by (simp add: le_log_iff)
qed

lemma powr_ratio_ge:
  fixes x :: real
  assumes "0 < q" "x ^ q \<le> (10::real) ^ p" "0 < x"
  shows "log 10 x \<le> real p / real q"
proof -
  have "(10 powr (real p / real q)) ^ q = 10 powr (real p / real q * real q)"
    by (simp add: powr_power)
  also have "\<dots> = 10 powr real p" using assms(1) by simp
  also have "\<dots> = 10 ^ p" by (simp add: powr_realpow)
  finally have "x ^ q \<le> (10 powr (real p / real q)) ^ q" using assms(2) by simp
  then have "x \<le> 10 powr (real p / real q)"
    using assms(1) by (metis power_le_imp_le_base Suc_pred powr_ge_zero)
  then show ?thesis using assms(3) by (simp add: log_le_iff)
qed

lemma pow24_lower: "(10::nat) ^ 265 \<le> 24 ^ 192"
  by simp

lemma pow24_upper: "(24::nat) ^ 455 \<le> 10 ^ 628"
  by simp

lemma log10_24_lower: "265 / 192 \<le> log 10 24"
proof -
  have "real ((10::nat) ^ 265) \<le> real (24 ^ 192)"
    using pow24_lower by (simp only: of_nat_le_iff)
  then have "(10::real) ^ 265 \<le> 24 ^ 192"
    by (simp only: of_nat_power of_nat_numeral)
  from powr_ratio_le[of 192 265 24, OF _ this] show ?thesis by simp
qed

lemma log10_24_upper: "log 10 24 \<le> 628 / 455"
proof -
  have "real ((24::nat) ^ 455) \<le> real (10 ^ 628)"
    using pow24_upper by (simp only: of_nat_le_iff)
  then have "(24::real) ^ 455 \<le> 10 ^ 628"
    by (simp only: of_nat_power of_nat_numeral)
  from powr_ratio_ge[of 455 24 628, OF _ this] show ?thesis by simp
qed

lemma log10_2400: "log 10 2400 = 2 + log 10 24"
proof -
  have "log 10 2400 = log 10 (10 ^ 2 * 24)" by simp
  also have "\<dots> = log 10 (10 ^ 2) + log 10 24" by (subst log_mult) simp_all
  also have "log 10 (10 ^ 2) = (2::real)" by (subst log_nat_power) simp_all
  finally show ?thesis .
qed

lemma log10_2400_bounds: "649 / 192 \<le> log 10 2400" "log 10 2400 \<le> 1538 / 455"
  using log10_24_lower log10_24_upper unfolding log10_2400 by simp_all

text \<open>Rounding a real of magnitude between 1 and 128 moves it by at most \<open>2 ^ - 46\<close>.\<close>

lemma rnd_near:
  assumes "1 \<le> \<bar>x\<bar>" "\<bar>x\<bar> \<le> 128"
  obtains v where "rnd x = Fin v" "x - 1 / 2 ^ 46 \<le> v" "v \<le> x + 1 / 2 ^ 46"
proof -
  have "(2::real) powi (- 1022) \<le> 2 powi 0" by (subst powi_le) simp
  then have lo: "2 powi (- 1022) \<le> \<bar>x\<bar>" using assms(1) by simp
  have "(2::real) powi 7 \<le> 2 powi 1023" by (subst powi_le) simp
  then have hi: "\<bar>x\<bar> \<le> 2 powi 1023" using assms(2) by simp
  from rnd_normal[OF lo hi] obtain v where v: "rnd x = Fin v" "\<bar>v - x\<bar> \<le> \<bar>x\<bar> / 2 ^ 53"
    by blast
  have "\<bar>x\<bar> / 2 ^ 53 \<le> 128 / 2 ^ 53" using assms(2) by (intro divide_right_mono) simp_all
  also have "\<dots> = (1::real) / 2 ^ 46" by simp
  finally have "\<bar>v - x\<bar> \<le> 1 / 2 ^ 46" using v(2) by linarith
  then have "x - 1 / 2 ^ 46 \<le> v" "v \<le> x + 1 / 2 ^ 46" by linarith+
  with v(1) show ?thesis by (rule that)
qed

lemma rnd_between_ex:
  assumes "lo \<le> x" "x \<le> hi" and "1 \<le> lo \<or> hi \<le> - 1" "- 128 \<le> lo" "hi \<le> 128"
  shows "\<exists>v. rnd x = Fin v \<and> lo - 1 / 10 ^ 9 \<le> v \<and> v \<le> hi + 1 / 10 ^ 9"
proof -
  have "1 \<le> \<bar>x\<bar>" "\<bar>x\<bar> \<le> 128" using assms by auto
  then obtain v where v: "rnd x = Fin v" "x - 1 / 2 ^ 46 \<le> v" "v \<le> x + 1 / 2 ^ 46"
    by (rule rnd_near)
  have "(1::real) / 2 ^ 46 \<le> 1 / 10 ^ 9" by simp
  then have "lo - 1 / 10 ^ 9 \<le> v" "v \<le> hi + 1 / 10 ^ 9" using v(2,3) assms(1,2) by linarith+
  with v(1) show ?thesis by blast
qed

text \<open>The default link, operation by operation, with an enclosure of each rounded value.\<close>

lemma lb_default_results:
  obtains fsl rp lm where
    "linkBudget_newResults lb_default =
       \<lparr>eirp = Fin 45, freeSpaceLoss = Fin fsl, receivedPower = Fin rp,
        linkMargin = Fin lm, isLinkViable = True\<rparr>"
    "120.0441 \<le> fsl" "fsl \<le> 120.0445"
    "- 66.0445 \<le> rp" "rp \<le> - 66.0441"
    "18.9555 \<le> lm" "lm \<le> 18.9559"
proof -
  have p_l: "3.38020833 \<le> log 10 2400" "log 10 2400 \<le> 3.38021979"
    using log10_2400_bounds by simp_all
  from rnd_between_ex[OF p_l] obtain l where l: "rnd (log 10 2400) = Fin l"
      "3.38020833 - 1 / 10 ^ 9 \<le> l" "l \<le> 3.38021979 + 1 / 10 ^ 9"
    by auto
  have p_m: "67.60416658 \<le> 20 * l" "20 * l \<le> 67.60439582"
    using l(2,3) by simp_all
  from rnd_between_ex[OF p_m] obtain m where m: "rnd (20 * l) = Fin m"
      "67.60416658 - 1 / 10 ^ 9 \<le> m" "m \<le> 67.60439582 + 1 / 10 ^ 9"
    by auto
  have p_s: "87.60416657 \<le> 20 + m" "20 + m \<le> 87.60439583"
    using m(2,3) by simp_all
  from rnd_between_ex[OF p_s] obtain s where s: "rnd (20 + m) = Fin s"
      "87.60416657 - 1 / 10 ^ 9 \<le> s" "s \<le> 87.60439583 + 1 / 10 ^ 9"
    by auto
  have p_f: "120.04416656 \<le> s + 570690515280855 / 17592186044416" "s + 570690515280855 / 17592186044416 \<le> 120.04439584"
    using s(2,3) by simp_all
  from rnd_between_ex[OF p_f] obtain f where f: "rnd (s + 570690515280855 / 17592186044416) = Fin f"
      "120.04416656 - 1 / 10 ^ 9 \<le> f" "f \<le> 120.04439584 + 1 / 10 ^ 9"
    by auto
  have p_u: "- 75.04439585 \<le> 45 - f" "45 - f \<le> - 75.04416655"
    using f(2,3) by simp_all
  from rnd_between_ex[OF p_u] obtain u where u: "rnd (45 - f) = Fin u"
      "- 75.04439585 - 1 / 10 ^ 9 \<le> u" "u \<le> - 75.04416655 + 1 / 10 ^ 9"
    by auto
  have p_v: "- 63.04439586 \<le> u + 12" "u + 12 \<le> - 63.04416654"
    using u(2,3) by simp_all
  from rnd_between_ex[OF p_v] obtain v where v: "rnd (u + 12) = Fin v"
      "- 63.04439586 - 1 / 10 ^ 9 \<le> v" "v \<le> - 63.04416654 + 1 / 10 ^ 9"
    by auto
  have p_rp: "- 66.04439587 \<le> v - 3" "v - 3 \<le> - 66.04416653"
    using v(2,3) by simp_all
  from rnd_between_ex[OF p_rp] obtain rp where rp: "rnd (v - 3) = Fin rp"
      "- 66.04439587 - 1 / 10 ^ 9 \<le> rp" "rp \<le> - 66.04416653 + 1 / 10 ^ 9"
    by auto
  have p_w: "28.95560412 \<le> rp + 95" "rp + 95 \<le> 28.95583348"
    using rp(2,3) by simp_all
  from rnd_between_ex[OF p_w] obtain w where w: "rnd (rp + 95) = Fin w"
      "28.95560412 - 1 / 10 ^ 9 \<le> w" "w \<le> 28.95583348 + 1 / 10 ^ 9"
    by auto
  have p_lm: "18.95560411 \<le> w - 10" "w - 10 \<le> 18.95583349"
    using w(2,3) by simp_all
  from rnd_between_ex[OF p_lm] obtain lm where lm: "rnd (w - 10) = Fin lm"
      "18.95560411 - 1 / 10 ^ 9 \<le> lm" "lm \<le> 18.95583349 + 1 / 10 ^ 9"
    by auto
  have nz: "l \<noteq> 0" "f \<noteq> 0" "0 < lm"
    using l(2) f(2) lm(2) by simp_all
  have "linkBudget_newResults lb_default =
       \<lparr>eirp = Fin 45, freeSpaceLoss = Fin f, receivedPower = Fin rp,
        linkMargin = Fin lm, isLinkViable = True\<rparr>"
    using nz l(1) m(1) s(1) f(1) u(1) v(1) rp(1) w(1) lm(1)
    by (simp add: linkBudget_newResults_def lb_default_def Let_def lit_32_44 lb1 lb2 rnd_1)
       (simp add: plus_number_def minus_number_def times_number_def js_mul_def less_number_def)
  moreover have "120.0441 \<le> f" "f \<le> 120.0445" "- 66.0445 \<le> rp" "rp \<le> - 66.0441"
      "18.9555 \<le> lm" "lm \<le> 18.9559"
    using f(2,3) rp(2,3) lm(2,3) by simp_all
  ultimately show ?thesis by (rule that)
qed

text \<open>
  C1, with the figures as the code computes them. For every parameter record the stored
  record has \<open>eirp = transmitterPower + transmitterGain\<close>,
  \<open>freeSpaceLoss = 20 * log10(distance) + 20 * log10(frequency) + 32.44\<close>,
  \<open>receivedPower = eirp - freeSpaceLoss + receiverGain - systemLoss\<close> and
  \<open>linkMargin = receivedPower - receiverSensitivity - fadeMargin\<close>; on the input
  \<open>{transmitterPower: 30, transmitterGain: 15, frequency: 2400, distance: 10, receiverGain: 12,
  systemLoss: 3, fadeMargin: 10, receiverSensitivity: -95}\<close> it has \<open>eirp = 45\<close> exactly and, to
  three decimals, \<open>freeSpaceLoss\<close> 120.044, \<open>receivedPower\<close> -66.044 and \<open>linkMargin\<close> 18.956,
  and the link is viable.
\<close>

theorem link_budget_formulas:
  "(\<exists>r. LinkBudget.results (calculateLinkBudget s) = Some r \<and>
      (let p = LinkBudget.params s
       in eirp r = transmitterPower p + transmitterGain p
        \<and> freeSpaceLoss r = Fin 20 * Math_log10 (distance p)
                             + Fin 20 * Math_log10 (LinkBudgetParams.frequency p) + rnd 32.44
        \<and> receivedPower r = eirp r - freeSpaceLoss r + receiverGain p - systemLoss p
        \<and> linkMargin r = receivedPower r - receiverSensitivity p - fadeMargin p))
   \<and> (\<exists>r. LinkBudget.results (calculateLinkBudget (lb_state lb_default)) = Some r
       \<and> eirp r = Fin 45
       \<and> is_finite (freeSpaceLoss r) \<and> \<bar>val (freeSpaceLoss r) - 120.044\<bar> \<le> 0.0005
       \<and> is_finite (receivedPower r) \<and> \<bar>val (receivedPower r) - (- 66.044)\<bar> \<le> 0.0005
       \<and> is_finite (linkMargin r) \<and> \<bar>val (linkMargin r) - 18.956\<bar> \<le> 0.0005
       \<and> isLinkViable r)"
proof -
  obtain fsl rp lm where d:
    "linkBudget_newResults lb_default =
       \<lparr>eirp = Fin 45, freeSpaceLoss = Fin fsl, receivedPower = Fin rp,
        linkMargin = Fin lm, isLinkViable = True\<rparr>"
    "120.0441 \<le> fsl" "fsl \<le> 120.0445" "- 66.0445 \<le> rp" "rp \<le> - 66.0441"
    "18.9555 \<le> lm" "lm \<le> 18.9559"
    by (rule lb_default_results)
  have "\<bar>fsl - 120.044\<bar> \<le> 0.0005" "\<bar>rp - (- 66.044)\<bar> \<le> 0.0005" "\<bar>lm - 18.956\<bar> \<le> 0.0005"
    using d(2-) by (simp_all add: abs_le_iff)
  then show ?thesis
    by (simp add: calculateLinkBudget_def lb_state_def d(1))
       (simp add: linkBudget_newResults_def Let_def)
qed

text \<open>On that input \<open>freeSpaceLoss\<close> is more than 0.001 above the figure 120.043.\<close>

theorem freeSpaceLoss_counterexample:
  "val (freeSpaceLoss (linkBudget_newResults lb_default)) - 120.043 > 0.001"
proof -
  obtain fsl rp lm where d:
    "linkBudget_newResults lb_default =
       \<lparr>eirp = Fin 45, freeSpaceLoss = Fin fsl, receivedPower = Fin rp,
        linkMargin = Fin lm, isLinkViable = True\<rparr>"
    "120.0441 \<le> fsl"
    by (rule lb_default_results)
  then show ?thesis by simp
qed

section \<open>Spectrum efficiency and the blocking probability\<close>

text \<open>A finite rounded value is below \<open>2 ^ 1024\<close> in magnitude; in the normal range it is
  within \<open>2 ^ - 53\<close> of the real it rounds, relatively, and stays in the normal range.\<close>

lemma rnd_Fin_less:
  assumes "rnd x = Fin v"
  shows "\<bar>v\<bar> < 2 powi 1024"
proof -
  from rnd_FinE[OF assms] obtain n where n: "n = rhe (\<bar>x\<bar> / quantum x)"
    "of_int n * quantum x < 2 powi 1024"
    "v = (if x < 0 then - (of_int n * quantum x) else of_int n * quantum x)" by blast
  have "0 \<le> n" unfolding n(1) using quantum_pos[of x] by (intro rhe_nonneg) simp
  then have "0 \<le> of_int n * quantum x" using quantum_pos[of x] by simp
  then have "\<bar>v\<bar> = of_int n * quantum x" unfolding n(3) by simp
  then show ?thesis using n(2) by simp
qed

lemma rnd_Fin_error:
  assumes "rnd x = Fin v" and lo: "2 powi (- 1022) \<le> \<bar>x\<bar>"
  shows "\<bar>v - x\<bar> \<le> \<bar>x\<bar> / 2 ^ 53" and "2 powi (- 1022) \<le> \<bar>v\<bar>"
proof -
  from rnd_FinE[OF assms(1)] obtain n where n: "n = rhe (\<bar>x\<bar> / quantum x)"
    "v = (if x < 0 then - (of_int n * quantum x) else of_int n * quantum x)" by blast
  define y where "y = of_int n * quantum x"
  have nge: "2 ^ 52 \<le> n" unfolding n(1) by (rule scaled_round_ge[OF lo])
  then have "(2::real) ^ 52 \<le> of_int n" by (metis numeral_power_le_of_int_cancel_iff)
  then have "2 ^ 52 * quantum x \<le> y" unfolding y_def using quantum_pos[of x] by simp
  moreover have "2 ^ 52 * quantum x = 2 powi expo x"
    by (simp add: quantum_def power_int_diff)
  moreover have "(2::real) powi (- 1022) \<le> 2 powi expo x"
    using expo_ge[of x] by (simp only: powi_le)
  ultimately have ylo: "2 powi (- 1022) \<le> y" by linarith
  have "(0::real) < 2 powi (- 1022)" by simp
  then have ypos: "0 < y" using ylo by linarith
  have v: "v = (if x < 0 then - y else y)" using n(2) by (simp add: y_def)
  have "\<bar>y - \<bar>x\<bar>\<bar> \<le> quantum x / 2" unfolding y_def n(1) by (rule scaled_error)
  also have "\<dots> \<le> (\<bar>x\<bar> / 2 ^ 52) / 2" using quantum_le[OF lo] by simp
  also have "\<dots> = \<bar>x\<bar> / 2 ^ 53" by simp
  finally have err: "\<bar>y - \<bar>x\<bar>\<bar> \<le> \<bar>x\<bar> / 2 ^ 53" .
  show "\<bar>v - x\<bar> \<le> \<bar>x\<bar> / 2 ^ 53" using err unfolding v by (auto simp: abs_if split: if_splits)
  show "2 powi (- 1022) \<le> \<bar>v\<bar>" using ylo ypos unfolding v by auto
qed


lemma binary64_one_minus:
  assumes "binary64 b"
  shows "1 - b = 0 \<or> 2 powi (- 1022) \<le> \<bar>1 - b\<bar>"
proof -
  from assms obtain m k where mk: "b = of_int m * 2 powi k" "\<bar>m\<bar> < 2 ^ 53" "- 1074 \<le> k"
    unfolding binary64_def by blast
  show ?thesis
  proof (cases "k < - 1022")
    case True
    have "(of_int \<bar>m\<bar> :: real) < 2 ^ 53" using mk(2) by (metis of_int_less_numeral_power_cancel_iff)
    then have "\<bar>b\<bar> \<le> 2 ^ 53 * 2 powi k" unfolding mk(1) by (simp add: abs_mult)
    also have "\<dots> = 2 powi (53 + k)" unfolding powi_add by simp
    also have "\<dots> \<le> 2 powi (- 1)" using True by (subst powi_le) simp
    finally have "\<bar>b\<bar> \<le> 1 / 2" by simp
    then have "1 / 2 \<le> \<bar>1 - b\<bar>" by linarith
    moreover have "(2::real) powi (- 1022) \<le> 2 powi (- 1)" by (subst powi_le) simp
    ultimately have "2 powi (- 1022) \<le> \<bar>1 - b\<bar>" by simp
    then show ?thesis ..
  next
    case False
    define j where "j = min k 0"
    have j: "- 1022 \<le> j" "j \<le> 0" "j \<le> k" using False by (simp_all add: j_def)
    define N where "N = 2 ^ nat (- j) - m * 2 ^ nat (k - j)"
    have "2 powi k = 2 ^ nat (k - j) * (2::real) powi j"
    proof -
      have "k = int (nat (k - j)) + j" using j(3) by simp
      then have "(2::real) powi k = 2 powi (int (nat (k - j)) + j)" by simp
      also have "\<dots> = 2 powi int (nat (k - j)) * 2 powi j" by (rule powi_add)
      also have "\<dots> = 2 ^ nat (k - j) * 2 powi j" by (simp only: powi_nat)
      finally show ?thesis .
    qed
    moreover have "1 = 2 ^ nat (- j) * (2::real) powi j"
    proof -
      have "0 = int (nat (- j)) + j" using j(2) by simp
      then have "(2::real) powi 0 = 2 powi (int (nat (- j)) + j)" by simp
      also have "\<dots> = 2 powi int (nat (- j)) * 2 powi j" by (rule powi_add)
      also have "\<dots> = 2 ^ nat (- j) * 2 powi j" by (simp only: powi_nat)
      finally show ?thesis by simp
    qed
    ultimately have eq: "1 - b = of_int N * 2 powi j"
      unfolding mk(1) N_def by (simp add: algebra_simps)
    show ?thesis
    proof (cases "N = 0")
      case True
      then show ?thesis using eq by simp
    next
      case False
      then have "1 \<le> \<bar>N\<bar>" by simp
      then have "(1::real) \<le> of_int \<bar>N\<bar>" by (metis of_int_1_le_iff)
      then have "1 * 2 powi j \<le> of_int \<bar>N\<bar> * (2::real) powi j"
        by (intro mult_right_mono) simp_all
      then have "2 powi j \<le> \<bar>1 - b\<bar>" unfolding eq by (simp add: abs_mult)
      moreover have "(2::real) powi (- 1022) \<le> 2 powi j" using j(1) by (simp only: powi_le)
      ultimately show ?thesis by linarith
    qed
  qed
qed

lemma rel_form:
  fixes x v e :: real
  assumes "x \<noteq> 0" "\<bar>v - x\<bar> \<le> \<bar>x\<bar> * e"
  obtains d where "v = x * (1 + d)" "\<bar>d\<bar> \<le> e"
proof
  show "v = x * (1 + (v - x) / x)" using assms(1) by (simp add: field_simps)
  have "\<bar>(v - x) / x\<bar> = \<bar>v - x\<bar> / \<bar>x\<bar>" by simp
  also have "\<dots> \<le> e" using assms by (simp add: field_simps)
  finally show "\<bar>(v - x) / x\<bar> \<le> e" .
qed


lemma lit_0_2: "rnd (1 / 5) = Fin (3602879701896397 / 18014398509481984)"
  by (rule rnd_eval[where e = "- 3" and n = 7205759403792794, THEN trans]) (simp_all add: rhe_def)

lemma ratio_bound:
  fixes d1 d2 d3 d4 :: real
  assumes "\<bar>d1\<bar> \<le> 1 / 2 ^ 53" "\<bar>d2\<bar> \<le> 1 / 2 ^ 53" "\<bar>d3\<bar> \<le> 1 / 2 ^ 53" "\<bar>d4\<bar> \<le> 1 / 2 ^ 53"
  shows "\<bar>(1 + d4) * (1 + d1) * (1 + d3) / ((1 + d2) * (1 + 1 / 2 ^ 54)) - 1\<bar> \<le> 1 / 2 ^ 50"
proof -
  define e :: real where "e = 1 / 2 ^ 53"
  define P where "P = (1 + d4) * (1 + d1) * (1 + d3)"
  define Q where "Q = (1 + d2) * (1 + 1 / 2 ^ 54)"
  have b: "1 - e \<le> 1 + d1" "1 + d1 \<le> 1 + e" "1 - e \<le> 1 + d2" "1 + d2 \<le> 1 + e"
    "1 - e \<le> 1 + d3" "1 + d3 \<le> 1 + e" "1 - e \<le> 1 + d4" "1 + d4 \<le> 1 + e"
    using assms unfolding e_def by (simp_all add: abs_le_iff)
  have e0: "0 \<le> 1 - e" "0 < 1 - e" unfolding e_def by simp_all
  have "(1 - e) * (1 - e) \<le> (1 + d4) * (1 + d1)"
    using b e0 by (intro mult_mono) simp_all
  then have Plo: "(1 - e) * (1 - e) * (1 - e) \<le> P"
    unfolding P_def using b e0 by (intro mult_mono) simp_all
  have "(1 + d4) * (1 + d1) \<le> (1 + e) * (1 + e)"
    using b e0 by (intro mult_mono) simp_all
  then have Phi: "P \<le> (1 + e) * (1 + e) * (1 + e)"
    unfolding P_def using b e0 by (intro mult_mono) simp_all
  have Qlo: "1 - e \<le> Q"
  proof -
    have "(1 - e) * 1 \<le> (1 + d2) * (1 + 1 / 2 ^ 54)"
      using b e0 by (intro mult_mono) simp_all
    then show ?thesis by (simp add: Q_def)
  qed
  have Qhi: "Q \<le> (1 + e) * (1 + e)"
    unfolding Q_def using b e0 by (intro mult_mono) (simp_all add: e_def)
  have Qpos: "0 < Q" using Qlo e0 by linarith
  have "0 \<le> (1 - e) * (1 - e) * (1 - e)" using e0(1) by (intro mult_nonneg_nonneg)
  then have P0: "0 \<le> P" using Plo by linarith
  have "P / Q \<le> ((1 + e) * (1 + e) * (1 + e)) / (1 - e)"
    using _ Phi e0(2) Qlo by (rule frac_le) (simp add: e_def)
  also have "\<dots> \<le> 1 + 1 / 2 ^ 50" unfolding e_def by simp
  finally have up: "P / Q \<le> 1 + 1 / 2 ^ 50" .
  have "1 - 1 / 2 ^ 50 \<le> ((1 - e) * (1 - e) * (1 - e)) / ((1 + e) * (1 + e))"
    unfolding e_def by simp
  also have "\<dots> \<le> P / Q"
    using P0 Plo Qpos Qhi by (rule frac_le)
  finally have lo: "1 - 1 / 2 ^ 50 \<le> P / Q" .
  have "\<bar>P / Q - 1\<bar> \<le> 1 / 2 ^ 50" using up lo by linarith
  then show ?thesis unfolding P_def Q_def .
qed


lemma rnd_finite_normal:
  assumes "2 powi (- 1022) \<le> \<bar>x\<bar>" "is_finite (rnd x)"
  obtains v where "rnd x = Fin v"
proof -
  have "2 ^ 52 \<le> rhe (\<bar>x\<bar> / quantum x)" by (rule scaled_round_ge[OF assms(1)])
  then have "rhe (\<bar>x\<bar> / quantum x) \<noteq> 0" by auto
  then have "rnd x \<noteq> NZero" unfolding rnd_def Let_def by simp
  then show ?thesis using assms(2) that by (cases "rnd x") simp_all
qed

lemma ceil_Fin: "Math_ceil X = Fin c \<Longrightarrow> \<exists>x. X = Fin x \<and> c = of_int \<lceil>x\<rceil>"
  by (cases X) (auto split: if_splits)

lemma two_powi_1024: "(2::real) powi 1024 = of_int (2 ^ 1024)"
  by simp

lemma add_two_Fin:
  assumes "a + Fin 2 = Fin x"
  shows "\<bar>x\<bar> < 2 powi 1024"
proof (cases a)
  case NZero
  then have "x = 2" using assms by (simp add: plus_number_def)
  moreover have "(2::real) powi 1 < 2 powi 1024" by (subst powi_less) simp
  ultimately show ?thesis by simp
next
  case (Fin y)
  then have "rnd (y + 2) = Fin x" using assms by (simp add: plus_number_def)
  then show ?thesis by (rule rnd_Fin_less)
qed (use assms in \<open>simp_all add: plus_number_def\<close>)

lemma channels_bounds:
  assumes "channelsPerCell (cellular_newResults p) = Fin c" "c \<noteq> 0"
  shows "1 \<le> \<bar>c\<bar>" and "\<bar>c\<bar> \<le> 2 powi 1024"
proof -
  obtain A where A: "channelsPerCell (cellular_newResults p) = Math_ceil (A + Fin 2)"
    by (simp add: cellular_newResults_def Let_def)
  from ceil_Fin[OF assms(1)[unfolded A]] obtain x where
    x: "A + Fin 2 = Fin x" "c = of_int \<lceil>x\<rceil>" by blast
  have "\<lceil>x\<rceil> \<noteq> 0" using assms(2) x(2) by auto
  then have "1 \<le> \<bar>\<lceil>x\<rceil>\<bar>" by linarith
  then show "1 \<le> \<bar>c\<bar>" unfolding x(2) by (metis of_int_1_le_iff of_int_abs)
  have lt: "\<bar>x\<bar> < of_int (2 ^ 1024)" using add_two_Fin[OF x(1)] unfolding two_powi_1024 .
  then have "x \<le> of_int (2 ^ 1024)" by linarith
  then have up: "\<lceil>x\<rceil> \<le> 2 ^ 1024" by (simp only: ceiling_le_iff)
  have "- of_int (2 ^ 1024) < x" using lt by linarith
  then have "of_int (- (2 ^ 1024)) < x" by simp
  then have "- (2 ^ 1024) < \<lceil>x\<rceil>" by (simp only: less_ceiling_iff)
  then have "\<bar>\<lceil>x\<rceil>\<bar> \<le> 2 ^ 1024" using up by linarith
  then have "\<bar>c\<bar> \<le> of_int (2 ^ 1024)" unfolding x(2) by (metis of_int_abs of_int_le_iff)
  then show "\<bar>c\<bar> \<le> 2 powi 1024" unfolding two_powi_1024 .
qed


lemma denominator_rounding:
  assumes "1 \<le> \<bar>c\<bar>" "\<bar>c\<bar> \<le> 2 powi 1024"
  obtains d e where "Fin c * rnd 0.2 = Fin d" "d = c * (1 / 5) * (1 + 1 / 2 ^ 54) * (1 + e)"
    "\<bar>e\<bar> \<le> 1 / 2 ^ 53" "d \<noteq> 0"
proof -
  define k :: real where "k = 3602879701896397 / 18014398509481984"
  have k: "k = 1 / 5 * (1 + 1 / 2 ^ 54)" "1 / 8 \<le> k" "k \<le> 1 / 2" "0 < k"
    unfolding k_def by simp_all
  have cn: "c \<noteq> 0" using assms(1) by auto
  have m: "Fin c * rnd 0.2 = rnd (c * k)"
    using cn by (simp add: lit_0_2 times_number_def js_mul_def k_def)
  have "(2::real) powi (- 1022) \<le> 2 powi (- 3)" by (subst powi_le) simp
  also have "\<dots> = 1 / 8" by simp
  also have "\<dots> \<le> 1 * k" using k(2) by simp
  also have "\<dots> \<le> \<bar>c\<bar> * k" using assms(1) k(4) by (intro mult_right_mono) simp_all
  finally have lo: "2 powi (- 1022) \<le> \<bar>c * k\<bar>" using k(4) by (simp add: abs_mult)
  have "\<bar>c\<bar> * k \<le> 2 powi 1024 * (1 / 2)"
    using assms(2) k(3,4) by (intro mult_mono) simp_all
  also have "\<dots> = 2 powi 1023" by simp
  finally have hi: "\<bar>c * k\<bar> \<le> 2 powi 1023" using k(4) by (simp add: abs_mult)
  from rnd_normal[OF lo hi] obtain d where
    d: "rnd (c * k) = Fin d" "\<bar>d - c * k\<bar> \<le> \<bar>c * k\<bar> / 2 ^ 53" "d \<noteq> 0" by blast
  have "c * k \<noteq> 0" using cn k(4) by simp
  moreover have "\<bar>d - c * k\<bar> \<le> \<bar>c * k\<bar> * (1 / 2 ^ 53)" using d(2) by simp
  ultimately obtain e where e: "d = c * k * (1 + e)" "\<bar>e\<bar> \<le> 1 / 2 ^ 53" by (rule rel_form)
  show ?thesis
  proof (rule that)
    show "Fin c * rnd 0.2 = Fin d" using m d(1) by simp
    show "d = c * (1 / 5) * (1 + 1 / 2 ^ 54) * (1 + e)" unfolding e(1) k(1) by simp
  qed (fact e(2), fact d(3))
qed

lemma one_minus_cases:
  assumes "is_finite bp" "binary64 (val bp)" "is_finite (Fin 1 - bp)"
  obtains (zero) "val bp = 1" "Fin 1 - bp = Fin 0"
  | (normal) u e where "Fin 1 - bp = Fin u" "2 powi (- 1022) \<le> \<bar>u\<bar>"
      "u = (1 - val bp) * (1 + e)" "\<bar>e\<bar> \<le> 1 / 2 ^ 53"
proof -
  have one: "(2::real) powi (- 1022) \<le> \<bar>1\<bar>"
  proof -
    have "(2::real) powi (- 1022) \<le> 2 powi 0" by (subst powi_le) simp
    then show ?thesis by simp
  qed
  show ?thesis
  proof (cases "val bp = 0")
    case True
    then have "Fin 1 - bp = Fin 1"
      using assms(1) by (cases bp) (simp_all add: minus_number_def rnd_1)
    then show ?thesis using True one by (intro normal[of 1 0]) simp_all
  next
    case nz: False
    then obtain b where b: "bp = Fin b" "b \<noteq> 0" by (cases bp) simp_all
    have m: "Fin 1 - bp = rnd (1 - b)" using b by (simp add: minus_number_def)
    show ?thesis
    proof (cases "1 - b = 0")
      case True
      then show ?thesis using m b by (intro zero) (simp_all add: rnd_0)
    next
      case False
      then have lo: "2 powi (- 1022) \<le> \<bar>1 - b\<bar>"
        using binary64_one_minus[of b] assms(2) b by simp
      have "is_finite (rnd (1 - b))" using assms(3) m by simp
      with lo obtain u where u: "rnd (1 - b) = Fin u" by (rule rnd_finite_normal)
      have "\<bar>u - (1 - b)\<bar> \<le> \<bar>1 - b\<bar> * (1 / 2 ^ 53)"
        using rnd_Fin_error(1)[OF u lo] by simp
      with False obtain e where e: "u = (1 - b) * (1 + e)" "\<bar>e\<bar> \<le> 1 / 2 ^ 53"
        by (rule rel_form)
      show ?thesis
      proof (rule normal)
        show "Fin 1 - bp = Fin u" using m u by simp
        show "2 powi (- 1022) \<le> \<bar>u\<bar>" by (rule rnd_Fin_error(2)[OF u lo])
        show "u = (1 - val bp) * (1 + e)" using e(1) b by simp
      qed (fact e(2))
    qed
  qed
qed


lemma ratio_algebra:
  fixes c w k A1 A2 A3 A4 :: real
  assumes "c \<noteq> 0" "A2 \<noteq> 0" "k \<noteq> 0"
  shows "(c * (w * A4) * A1) / (c * (1 / 5) * k * A2) * A3
         = w / 0.2 * (A4 * A1 * A3 / (A2 * k))"
  using assms by (simp add: field_simps)

text \<open>A design with 7 channels per cell and blocking probability 0.1, step by step.\<close>

lemma lit_0_1: "rnd (1 / 10) = Fin (3602879701896397 / 36028797018963968)"
  by (rule rnd_eval[where e = "- 4" and n = 7205759403792794, THEN trans]) (simp_all add: rhe_def)

lemma x1: "Fin 10 * Fin 1 = Fin 10"
  by (simp add: times_number_def js_mul_def, rule rnd_eval[where e = "3" and n = 5629499534213120, THEN trans], simp_all add: rhe_def)

lemma x2: "Fin (2925087957977137 / 1125899906842624) * Fin 1 = Fin (2925087957977137 / 1125899906842624)"
  by (simp add: times_number_def js_mul_def, rule rnd_eval[where e = "1" and n = 5850175915954274, THEN trans], simp_all add: rhe_def)

lemma x3: "Fin 1 / Fin (2925087957977137 / 1125899906842624) = Fin (6933948617968431 / 18014398509481984)"
  by (simp add: divide_number_def js_div_def, rule rnd_eval[where e = "- 2" and n = 6933948617968431, THEN trans], simp_all add: rhe_def)

lemma x4: "Fin (18225 / 4) * Fin 1 = Fin (18225 / 4)"
  by (simp add: times_number_def js_mul_def, rule rnd_eval[where e = "12" and n = 5009649854054400, THEN trans], simp_all add: rhe_def)

lemma x5: "Fin (18225 / 4) / Fin 3600 = Fin (81 / 64)"
  by (simp add: divide_number_def js_div_def, rule rnd_eval[where e = "0" and n = 5699868278390784, THEN trans], simp_all add: rhe_def)

lemma x6: "Fin (81 / 64) / Fin 1 = Fin (81 / 64)"
  by (simp add: divide_number_def js_div_def, rule rnd_eval[where e = "0" and n = 5699868278390784, THEN trans], simp_all add: rhe_def)

lemma x7: "Fin 3 * Fin (9 / 8) = Fin (27 / 8)"
  by (simp add: times_number_def js_mul_def, rule rnd_eval[where e = "1" and n = 7599824371187712, THEN trans], simp_all add: rhe_def)

lemma x8: "Fin (81 / 64) + Fin (27 / 8) = Fin (297 / 64)"
  by (simp add: plus_number_def, rule rnd_eval[where e = "2" and n = 5224879255191552, THEN trans], simp_all add: rhe_def)

lemma x9: "Fin (297 / 64) + Fin 2 = Fin (425 / 64)"
  by (simp add: plus_number_def, rule rnd_eval[where e = "2" and n = 7476679068876800, THEN trans], simp_all add: rhe_def)

lemma x10: "Fin 1 - Fin (3602879701896397 / 36028797018963968) = Fin (8106479329266893 / 9007199254740992)"
  by (simp add: minus_number_def, rule rnd_eval[where e = "- 1" and n = 8106479329266893, THEN trans], simp_all add: rhe_def)

lemma x11: "Fin 7 * Fin (8106479329266893 / 9007199254740992) = Fin (7093169413108531 / 1125899906842624)"
  by (simp add: times_number_def js_mul_def, rule rnd_eval[where e = "2" and n = 7093169413108531, THEN trans], simp_all add: rhe_def)

lemma x12: "Fin 7 * Fin (3602879701896397 / 18014398509481984) = Fin (6305039478318695 / 4503599627370496)"
  by (simp add: times_number_def js_mul_def, rule rnd_eval[where e = "0" and n = 6305039478318695, THEN trans], simp_all add: rhe_def)

lemma x13: "Fin (7093169413108531 / 1125899906842624) / Fin (6305039478318695 / 4503599627370496) = Fin (5066549580791807 / 1125899906842624)"
  by (simp add: divide_number_def js_div_def, rule rnd_eval[where e = "2" and n = 5066549580791807, THEN trans], simp_all add: rhe_def)

lemma x14: "Fin (8106479329266893 / 9007199254740992) / Fin (3602879701896397 / 18014398509481984) = Fin (9 / 2)"
  by (simp add: divide_number_def js_div_def, rule rnd_eval[where e = "2" and n = 5066549580791808, THEN trans], simp_all add: rhe_def)


lemma sqrt_81_64: "sqrt (81 / 64) = 9 / 8"
  by (rule real_sqrt_unique) (simp_all add: power2_eq_square)

lemma rnd_9_8: "rnd (9 / 8) = Fin (9 / 8)"
  by (rule rnd_eval[where e = 0 and n = "9 * 2 ^ 49", THEN trans]) (simp_all add: rhe_def)

lemma pow_1_2: "Math_pow (Fin 1) (Fin 2) = Fin 1"
  by (simp add: Math_pow_def rnd_1)

lemma seven_cellRadius: "cellRadius (cellular_newResults cellular_seven) = Fin 1"
  by (simp add: cellular_newResults_def cellular_seven_def Let_def lit_32_44 rnd_0 x1
        rnd_idem[OF lit_32_44] rnd_uminus)
     (simp add: plus_number_def minus_number_def times_number_def divide_number_def js_mul_def
        js_div_def zero_of_def Math_pow_def rnd_0 rnd_idem[OF lit_32_44] rnd_uminus lit_32_44)

lemma seven_numberOfCells: "numberOfCells (cellular_newResults cellular_seven) = Fin 1"
proof -
  have "numberOfCells (cellular_newResults cellular_seven)
      = Math_ceil (Fin 1 / (rnd 2.598 * Math_pow (cellRadius (cellular_newResults cellular_seven)) (Fin 2)))"
    by (simp add: cellular_newResults_def cellular_seven_def Let_def)
  also have "\<dots> = Fin 1"
    unfolding seven_cellRadius pow_1_2 by (simp add: lit_2_598 x2 x3)
  finally show ?thesis .
qed

lemma seven_channelsPerCell: "channelsPerCell (cellular_newResults cellular_seven) = Fin 7"
proof -
  have "channelsPerCell (cellular_newResults cellular_seven)
      = (let t = Fin 4556.25 * Fin 1 / Fin 3600 / numberOfCells (cellular_newResults cellular_seven)
         in Math_ceil (t + Fin 3 * Math_sqrt t + Fin 2))"
    by (simp add: cellular_newResults_def cellular_seven_def Let_def)
  also have "\<dots> = Fin 7"
    unfolding seven_numberOfCells
    by (simp add: Let_def x4 x5 x6 sqrt_81_64 rnd_9_8 x7 x8 x9)
  finally show ?thesis .
qed

lemma seven_spectrumEfficiency:
  "spectrumEfficiency (cellular_newResults cellular_seven)
   = Fin (5066549580791807 / 1125899906842624)"
proof -
  have "spectrumEfficiency (cellular_newResults cellular_seven)
      = channelsPerCell (cellular_newResults cellular_seven) * (Fin 1 - rnd 0.1)
        / (channelsPerCell (cellular_newResults cellular_seven) * rnd 0.2)"
    by (simp add: cellular_newResults_def cellular_seven_def Let_def)
  also have "\<dots> = Fin (5066549580791807 / 1125899906842624)"
    unfolding seven_channelsPerCell by (simp add: lit_0_1 lit_0_2 x10 x11 x12 x13)
  finally show ?thesis .
qed

lemma seven_cellCapacity:
  "cellCapacity (cellular_newResults cellular_seven) = Fin (7093169413108531 / 1125899906842624)"
proof -
  have "cellCapacity (cellular_newResults cellular_seven)
      = channelsPerCell (cellular_newResults cellular_seven) * (Fin 1 - rnd 0.1)"
    by (simp add: cellular_newResults_def cellular_seven_def Let_def)
  also have "\<dots> = Fin (7093169413108531 / 1125899906842624)"
    unfolding seven_channelsPerCell by (simp add: lit_0_1 x10 x11)
  finally show ?thesis .
qed

text \<open>
  C10, up to rounding. For every cellular-design parameter record whose
  \<open>blockingProbability\<close> is a finite binary64 value, and for which \<open>channelsPerCell\<close> is
  finite and nonzero and \<open>cellCapacity\<close> and \<open>spectrumEfficiency\<close> are finite, the returned
  \<open>spectrumEfficiency\<close> is \<open>(1 - blockingProbability) / 0.2\<close> with a relative error of at
  most \<open>2 ^ - 50\<close>: the factor \<open>channelsPerCell\<close> cancels in real arithmetic, and the five
  roundings on the way move the quotient by a few units in the last place, whatever the
  other inputs are.
\<close>

theorem spectrumEfficiency_near:
  assumes ch: "channelsPerCell (cellular_newResults p) = Fin c" "c \<noteq> 0"
    and bp: "is_finite (blockingProbability p)" "binary64 (val (blockingProbability p))"
    and fin: "is_finite (cellCapacity (cellular_newResults p))"
      "is_finite (spectrumEfficiency (cellular_newResults p))"
  shows "\<bar>val (spectrumEfficiency (cellular_newResults p)) - (1 - val (blockingProbability p)) / 0.2\<bar>
         \<le> \<bar>(1 - val (blockingProbability p)) / 0.2\<bar> / 2 ^ 50"
proof -
  define b where "b = val (blockingProbability p)"
  have cap: "cellCapacity (cellular_newResults p) = Fin c * (Fin 1 - blockingProbability p)"
    using ch(1) by (simp add: cellular_newResults_def Let_def)
  have sp: "spectrumEfficiency (cellular_newResults p)
      = cellCapacity (cellular_newResults p) / (Fin c * rnd 0.2)"
    using ch(1) by (simp add: cellular_newResults_def Let_def)
  have cb: "1 \<le> \<bar>c\<bar>" "\<bar>c\<bar> \<le> 2 powi 1024" using channels_bounds[OF ch] by simp_all
  obtain d e2 where d: "Fin c * rnd 0.2 = Fin d" "d = c * (1 / 5) * (1 + 1 / 2 ^ 54) * (1 + e2)"
    "\<bar>e2\<bar> \<le> 1 / 2 ^ 53" "d \<noteq> 0" using cb by (rule denominator_rounding)
  have U: "is_finite (Fin 1 - blockingProbability p)"
    using fin(1) mul_non_finite[of "Fin c" "Fin 1 - blockingProbability p"] unfolding cap by auto
  from bp U show ?thesis
  proof (cases rule: one_minus_cases)
    case zero
    have "is_zero (cellCapacity (cellular_newResults p))"
      unfolding cap zero(2) by (simp add: times_number_def js_mul_def zero_of_def)
    then have "val (spectrumEfficiency (cellular_newResults p)) = 0"
      unfolding sp d(1) using d(4)
      by (cases "cellCapacity (cellular_newResults p)")
         (simp_all add: divide_number_def js_div_def zero_of_def)
    then show ?thesis using zero(1) by simp
  next
    case (normal u e4)
    have un: "u \<noteq> 0" using normal(2) by (auto simp: power_int_minus)
    have capr: "cellCapacity (cellular_newResults p) = rnd (c * u)"
      unfolding cap normal(1) using ch(2) un by (simp add: times_number_def js_mul_def)
    have "2 powi (- 1022) \<le> 1 * \<bar>u\<bar>" using normal(2) by simp
    also have "\<dots> \<le> \<bar>c\<bar> * \<bar>u\<bar>" using cb(1) by (intro mult_right_mono) simp_all
    finally have lo: "2 powi (- 1022) \<le> \<bar>c * u\<bar>" by (simp add: abs_mult)
    have "is_finite (rnd (c * u))" using fin(1) capr by simp
    with lo obtain a where a: "rnd (c * u) = Fin a" by (rule rnd_finite_normal)
    have alo: "2 powi (- 1022) \<le> \<bar>a\<bar>" by (rule rnd_Fin_error(2)[OF a lo])
    then have an: "a \<noteq> 0" by (auto simp: power_int_minus)
    have "c * u \<noteq> 0" using ch(2) un by simp
    moreover have "\<bar>a - c * u\<bar> \<le> \<bar>c * u\<bar> * (1 / 2 ^ 53)"
      using rnd_Fin_error(1)[OF a lo] by simp
    ultimately obtain e1 where e1: "a = c * u * (1 + e1)" "\<bar>e1\<bar> \<le> 1 / 2 ^ 53"
      by (rule rel_form)
    have spr: "spectrumEfficiency (cellular_newResults p) = rnd (a / d)"
      unfolding sp capr a d(1) using an d(4) by (simp add: divide_number_def js_div_def)
    have e2b: "1 / 2 \<le> 1 + e2" "1 + e2 \<le> 5 / 4" "1 / 2 \<le> 1 + e1"
      using d(3) e1(2) by (simp_all add: abs_le_iff)
    have dabs: "\<bar>d\<bar> \<le> \<bar>c\<bar> / 2"
    proof -
      have "\<bar>d\<bar> = \<bar>c\<bar> * ((1 / 5) * (1 + 1 / 2 ^ 54) * (1 + e2))"
        unfolding d(2) using e2b by (simp add: abs_mult)
      also have "(1 / 5) * (1 + 1 / 2 ^ 54) * (1 + e2) \<le> (1 / 5) * (1 + 1 / 2 ^ 54) * (5 / 4)"
        using e2b(2) by (intro mult_left_mono) simp_all
      also have "\<dots> \<le> 1 / 2" by simp
      finally show ?thesis by (simp add: mult_left_mono)
    qed
    have dpos: "0 < \<bar>d\<bar>" using d(4) by simp
    have "2 powi (- 1022) * \<bar>d\<bar> \<le> 2 powi (- 1022) * (\<bar>c\<bar> / 2)"
      using dabs by (intro mult_left_mono) simp_all
    also have "\<dots> = \<bar>c\<bar> * (2 powi (- 1022) * (1 / 2))" by simp
    also have "\<dots> \<le> \<bar>c\<bar> * (\<bar>u\<bar> * (1 + e1))"
      using normal(2) e2b(3) by (intro mult_left_mono mult_mono) simp_all
    also have "\<dots> = \<bar>a\<bar>" unfolding e1(1) using e2b(3) by (simp add: abs_mult)
    finally have "2 powi (- 1022) \<le> \<bar>a\<bar> / \<bar>d\<bar>" using dpos by (simp add: pos_le_divide_eq)
    then have lo2: "2 powi (- 1022) \<le> \<bar>a / d\<bar>" by simp
    have "is_finite (rnd (a / d))" using fin(2) spr by simp
    with lo2 obtain s where s: "rnd (a / d) = Fin s" by (rule rnd_finite_normal)
    have "a / d \<noteq> 0" using an d(4) by simp
    moreover have "\<bar>s - a / d\<bar> \<le> \<bar>a / d\<bar> * (1 / 2 ^ 53)"
      using rnd_Fin_error(1)[OF s lo2] by simp
    ultimately obtain e3 where e3: "s = a / d * (1 + e3)" "\<bar>e3\<bar> \<le> 1 / 2 ^ 53"
      by (rule rel_form)
    define R where "R = (1 + e4) * (1 + e1) * (1 + e3) / ((1 + e2) * (1 + 1 / 2 ^ 54))"
    have R: "\<bar>R - 1\<bar> \<le> 1 / 2 ^ 50"
      unfolding R_def using e1(2) d(3) e3(2) normal(4) by (rule ratio_bound)
    have e2n: "1 + e2 \<noteq> 0" using e2b(1) by simp
    have s1: "s = (c * ((1 - b) * (1 + e4)) * (1 + e1))
                  / (c * (1 / 5) * (1 + 1 / 2 ^ 54) * (1 + e2)) * (1 + e3)"
      by (subst e3(1), subst e1(1), subst d(2), subst normal(3)) (simp only: b_def)
    have "s = (1 - b) / 0.2 * R"
      unfolding s1 R_def by (rule ratio_algebra) (use ch(2) e2n in simp_all)
    then have "s - (1 - b) / 0.2 = (1 - b) / 0.2 * (R - 1)" by (simp add: algebra_simps)
    then have "\<bar>s - (1 - b) / 0.2\<bar> = \<bar>(1 - b) / 0.2\<bar> * \<bar>R - 1\<bar>" by (simp only: abs_mult)
    also have "\<dots> \<le> \<bar>(1 - b) / 0.2\<bar> * (1 / 2 ^ 50)"
      using R by (intro mult_left_mono) simp_all
    finally show ?thesis unfolding spr s b_def by simp
  qed
qed

theorem spectrumEfficiency_near_witness:
  "channelsPerCell (cellular_newResults cellular_seven) = Fin 7
   \<and> is_finite (blockingProbability cellular_seven)
   \<and> binary64 (val (blockingProbability cellular_seven))
   \<and> is_finite (cellCapacity (cellular_newResults cellular_seven))
   \<and> is_finite (spectrumEfficiency (cellular_newResults cellular_seven))
   \<and> \<bar>val (spectrumEfficiency (cellular_newResults cellular_seven))
        - (1 - val (blockingProbability cellular_seven)) / 0.2\<bar>
      \<le> \<bar>(1 - val (blockingProbability cellular_seven)) / 0.2\<bar> / 2 ^ 50"
proof -
  have b: "blockingProbability cellular_seven = Fin (3602879701896397 / 36028797018963968)"
    by (simp add: cellular_seven_def lit_0_1)
  have h: "is_finite (blockingProbability cellular_seven)"
    "binary64 (val (blockingProbability cellular_seven))"
    using rnd_binary64[OF lit_0_1] by (simp_all add: b)
  have f: "is_finite (cellCapacity (cellular_newResults cellular_seven))"
    "is_finite (spectrumEfficiency (cellular_newResults cellular_seven))"
    by (simp_all add: seven_cellCapacity seven_spectrumEfficiency)
  show ?thesis
    using spectrumEfficiency_near[OF seven_channelsPerCell _ h f] h f seven_channelsPerCell
    by simp
qed

text \<open>
  With 7 channels per cell and blocking probability 0.1 the code returns
  4.499999999999999, one unit in the last place below the 4.5 that
  \<open>(1 - blockingProbability) / 0.2\<close> evaluates to.
\<close>

theorem spectrumEfficiency_counterexample:
  "channelsPerCell (cellular_newResults cellular_seven) = Fin 7
   \<and> spectrumEfficiency (cellular_newResults cellular_seven)
     = Fin (5066549580791807 / 1125899906842624)
   \<and> (Fin 1 - blockingProbability cellular_seven) / rnd 0.2 = Fin (9 / 2)
   \<and> val (spectrumEfficiency (cellular_newResults cellular_seven)) < 9 / 2"
  by (simp add: seven_channelsPerCell seven_spectrumEfficiency)
     (simp add: cellular_seven_def lit_0_1 lit_0_2 x10 x14)

end
